theory Spec2Isabelle
  imports Main "HOL-Library.Word"
begin

unbundle bit_operations_syntax

section \<open>Constants of fs.h\<close>

definition NAME_MAX :: nat where
  "NAME_MAX = 32"

definition MAX_CHILDREN :: nat where
  "MAX_CHILDREN = 64"

definition ATTR_NONE :: "8 word" where
  "ATTR_NONE = 0"

definition ATTR_READONLY :: "8 word" where
  "ATTR_READONLY = 2"

definition MAX_OPEN_FILES :: nat where
  "MAX_OPEN_FILES = 32"

definition O_RDONLY :: int where
  "O_RDONLY = 1"

definition O_WRONLY :: int where
  "O_WRONLY = 2"

definition O_RDWR :: int where
  "O_RDWR = 3"

text \<open>
  \<open>size_t\<close> is taken to be 64 bits wide: sizes are natural numbers and every
  \<open>size_t\<close> addition or multiplication of the source is followed by \<open>mod SIZE_MOD\<close>.
  \<open>ssize_t\<close> and \<open>off_t\<close> are the signed 64-bit readings.
\<close>

definition SIZE_MOD :: nat where
  "SIZE_MOD = 2 ^ 64"

definition to_ssize :: "nat \<Rightarrow> int" where
  "to_ssize n = (if n mod SIZE_MOD < 2 ^ 63 then int (n mod SIZE_MOD)
                 else int (n mod SIZE_MOD) - 2 ^ 64)"

section \<open>The store: nodes, the globals \<open>root\<close> and \<open>cwd\<close>, the descriptor table\<close>

text \<open>
  A \<open>node_t *\<close> is an address; \<open>NULL\<close> is \<open>None\<close>. The heap maps the addresses of the
  live nodes to their contents, so that the parent pointers, the child arrays and the
  descriptor table can alias one node. \<open>children\<close> holds the first \<open>child_count\<close> entries
  of the child array, \<open>data\<close> is the allocated block of a file and \<open>cap\<close> its length.
  A character string is the list of its bytes before the terminating NUL.
\<close>

datatype node_type = N_DIR | N_FILE

type_synonym addr = nat

type_synonym time_t = int

type_synonym clock = "nat \<Rightarrow> time_t"

record node =
  ntype :: node_type
  name :: string
  parent :: "addr option"
  created :: time_t
  modified :: time_t
  accessed :: time_t
  attributes :: "8 word"
  children :: "addr list"
  data :: "8 word list"
  fsize :: nat

definition cap :: "node \<Rightarrow> nat" where
  "cap n = length (data n)"

definition child_count :: "node \<Rightarrow> nat" where
  "child_count n = length (children n)"

type_synonym heap = "addr \<Rightarrow> node option"

record file_descriptor =
  fd_node :: "addr option"
  offset :: nat
  flags :: int
  in_use :: bool

record fs =
  heap :: heap
  root :: "addr option"
  cwd :: "addr option"
  fd_table :: "nat \<Rightarrow> file_descriptor"

text \<open>
  Every operation returns an \<open>option\<close>: \<open>None\<close> stands for an execution without a
  defined result (a dereference of \<open>NULL\<close> or of a freed node, a \<open>memcpy\<close> that reads
  outside the block or writes through \<open>NULL\<close>, a loop that never exits, an allocator
  answer that is already in use);
  \<open>Some (r, s)\<close> is the returned value with the store after the call.

  What the environment decides is a parameter of the operation. \<open>now\<close> is the value of
  \<open>time(NULL)\<close> in an operation that reads the clock once; an operation that reads it
  several times takes a clock \<open>clk\<close>: its readings are the values of \<open>clk\<close> at indices that
  increase from one reading to the next, so that the readings are independent values.
  \<open>m\<close> and \<open>al\<close> are the answers of \<open>calloc\<close>, and \<open>realloc_ok\<close> tells which sizes \<open>realloc\<close>
  grants.
\<close>

definition upd_node :: "heap \<Rightarrow> addr \<Rightarrow> (node \<Rightarrow> node) \<Rightarrow> heap" where
  "upd_node h a f = (case h a of None \<Rightarrow> h | Some n \<Rightarrow> h(a \<mapsto> f n))"

definition is_readonly :: "node \<Rightarrow> bool" where
  "is_readonly n = (attributes n AND ATTR_READONLY \<noteq> 0)"

section \<open>Node store\<close>

text \<open>
  \<open>node_new\<close>: \<open>m\<close> is what \<open>calloc\<close> returns. The source never tests it, so \<open>NULL\<close> is
  dereferenced. \<open>strncpy\<close> copies at most \<open>NAME_MAX\<close> bytes into the zeroed
  \<open>name[NAME_MAX+1]\<close>.
\<close>

definition node_new ::
  "time_t \<Rightarrow> addr option \<Rightarrow> node_type \<Rightarrow> string \<Rightarrow> addr option \<Rightarrow> heap \<Rightarrow> (addr option \<times> heap) option" where
  "node_new now m t nm par h =
     (case m of
        None \<Rightarrow> None
      | Some a \<Rightarrow>
          if h a \<noteq> None then None
          else Some (Some a,
            h(a \<mapsto> \<lparr>ntype = t, name = take NAME_MAX nm, parent = par,
                    created = now, modified = now, accessed = now,
                    attributes = ATTR_NONE, children = [], data = [], fsize = 0\<rparr>)))"

definition fs_init :: "time_t \<Rightarrow> addr option \<Rightarrow> fs \<Rightarrow> (unit \<times> fs) option" where
  "fs_init now m s =
     (case node_new now m N_DIR [] None (heap s) of
        None \<Rightarrow> None
      | Some (r, h) \<Rightarrow> Some ((), s\<lparr>heap := h, root := r, cwd := r\<rparr>))"

text \<open>
  \<open>node_free\<close> is recursive over the child arrays; the recursion is written with an
  explicit stack of pending steps: \<open>Visit a\<close> is the call \<open>node_free(a)\<close>, \<open>Release a\<close> the
  \<open>free\<close> of \<open>a\<close> after its children. On a cyclic store it does not return.
\<close>

datatype task = Visit addr | Release addr

partial_function (option) free_tasks :: "heap \<Rightarrow> task list \<Rightarrow> heap option" where
  "free_tasks h ts =
     (case ts of
        [] \<Rightarrow> Some h
      | Visit a # rest \<Rightarrow>
          (case h a of
             None \<Rightarrow> None
           | Some n \<Rightarrow>
               free_tasks h ((if ntype n = N_DIR then map Visit (children n) else [])
                              @ Release a # rest))
      | Release a # rest \<Rightarrow>
          (case h a of
             None \<Rightarrow> None
           | Some n \<Rightarrow> free_tasks (h(a := None)) rest))"

declare free_tasks.simps [code]

definition node_free :: "heap \<Rightarrow> addr option \<Rightarrow> heap option" where
  "node_free h n = (case n of None \<Rightarrow> Some h | Some a \<Rightarrow> free_tasks h [Visit a])"

definition fs_destroy :: "fs \<Rightarrow> (unit \<times> fs) option" where
  "fs_destroy s =
     (case node_free (heap s) (root s) of
        None \<Rightarrow> None
      | Some h \<Rightarrow> Some ((), s\<lparr>heap := h, root := None, cwd := None\<rparr>))"

definition dir_add :: "time_t \<Rightarrow> heap \<Rightarrow> addr option \<Rightarrow> addr option \<Rightarrow> (addr option \<times> heap) option" where
  "dir_add now h dir child =
     (case dir of
        None \<Rightarrow> Some (None, h)
      | Some d \<Rightarrow>
          (case h d of
             None \<Rightarrow> None
           | Some dn \<Rightarrow>
               if ntype dn \<noteq> N_DIR \<or> child_count dn \<ge> MAX_CHILDREN then Some (None, h)
               else
                 (case child of
                    None \<Rightarrow> Some (None, h)
                  | Some c \<Rightarrow>
                      (case h c of
                         None \<Rightarrow> None
                       | Some cn \<Rightarrow>
                           if parent cn \<noteq> None \<and> parent cn \<noteq> Some d then Some (None, h)
                           else if c \<in> set (children dn) then Some (Some c, h)
                           else
                             let h1 = upd_node h d (\<lambda>n. n\<lparr>children := children n @ [c]\<rparr>);
                                 h2 = upd_node h1 c (\<lambda>n. n\<lparr>parent := Some d\<rparr>);
                                 h3 = upd_node h2 d (\<lambda>n. n\<lparr>modified := now, accessed := now\<rparr>)
                             in Some (Some c, h3)))))"

text \<open>\<open>strncmp(a, b, n) == 0\<close> on NUL-terminated strings.\<close>

definition strncmp_eq :: "string \<Rightarrow> string \<Rightarrow> nat \<Rightarrow> bool" where
  "strncmp_eq a b n = (take n a = take n b)"

fun find_loop :: "heap \<Rightarrow> addr list \<Rightarrow> string \<Rightarrow> addr option option" where
  "find_loop h [] nm = Some None"
| "find_loop h (c # cs) nm =
     (case h c of
        None \<Rightarrow> None
      | Some cn \<Rightarrow> if strncmp_eq (name cn) nm NAME_MAX then Some (Some c) else find_loop h cs nm)"

definition dir_find :: "heap \<Rightarrow> addr option \<Rightarrow> string \<Rightarrow> addr option option" where
  "dir_find h dir nm =
     (case dir of
        None \<Rightarrow> Some None
      | Some d \<Rightarrow>
          (case h d of
             None \<Rightarrow> None
           | Some dn \<Rightarrow> if ntype dn \<noteq> N_DIR then Some None else find_loop h (children dn) nm))"

section \<open>Path resolver\<close>

text \<open>
  The successive results of \<open>strtok_r(_, "/", &save)\<close> on a string: the maximal runs of
  bytes other than \<open>/\<close>, empty runs skipped. The first argument is the token being read.
\<close>

fun strtok_all :: "string \<Rightarrow> string \<Rightarrow> string list" where
  "strtok_all tok [] = (if tok = [] then [] else [tok])"
| "strtok_all tok (c # cs) =
     (if c = CHR ''/'' then (if tok = [] then strtok_all [] cs else tok # strtok_all [] cs)
      else strtok_all (tok @ [c]) cs)"

text \<open>\<open>strncpy(tmp, path, sizeof(tmp)); tmp[sizeof(tmp)-1] = 0\<close> with \<open>char tmp[1024]\<close>.\<close>

definition path_tokens :: "string \<Rightarrow> string list" where
  "path_tokens path = strtok_all [] (take 1023 path)"

text \<open>
  The \<open>while (tok)\<close> loop of \<open>walk_from\<close>: the head of the list is \<open>tok\<close>, and \<open>next\<close> is
  \<open>NULL\<close> exactly when the rest is empty. \<open>out_leaf\<close> is the caller's buffer (\<open>None\<close> when
  the caller passes \<open>NULL\<close>); the buffer after the call is returned with the node.
\<close>

fun walk_loop ::
  "heap \<Rightarrow> addr option \<Rightarrow> string list \<Rightarrow> bool \<Rightarrow> string option \<Rightarrow> (addr option \<times> string option) option" where
  "walk_loop h cur [] want_parent out_leaf = Some (cur, out_leaf)"
| "walk_loop h cur (tok # rest) want_parent out_leaf =
     (if length tok = 0 \<or> length tok > NAME_MAX then Some (None, out_leaf)
      else if tok = ''.'' then walk_loop h cur rest want_parent out_leaf
      else if tok = ''..'' then
        (case cur of
           None \<Rightarrow> None
         | Some c \<Rightarrow>
             (case h c of
                None \<Rightarrow> None
              | Some cn \<Rightarrow>
                  walk_loop h (case parent cn of None \<Rightarrow> cur | Some p \<Rightarrow> Some p)
                    rest want_parent out_leaf))
      else if rest = [] then
        (if want_parent then
           Some (cur, case out_leaf of None \<Rightarrow> None | Some b \<Rightarrow> Some (take NAME_MAX tok))
         else
           (case dir_find h cur tok of
              None \<Rightarrow> None
            | Some r \<Rightarrow> Some (r, out_leaf)))
      else
        (case dir_find h cur tok of
           None \<Rightarrow> None
         | Some None \<Rightarrow> Some (None, out_leaf)
         | Some (Some c) \<Rightarrow>
             (case h c of
                None \<Rightarrow> None
              | Some cn \<Rightarrow>
                  if ntype cn \<noteq> N_DIR then Some (None, out_leaf)
                  else walk_loop h (Some c) rest want_parent out_leaf)))"

definition start_node :: "fs \<Rightarrow> addr option \<Rightarrow> string \<Rightarrow> addr option" where
  "start_node s start path =
     (if take 1 path = ''/'' then root s
      else (case start of None \<Rightarrow> root s | Some a \<Rightarrow> Some a))"

definition walk_from ::
  "fs \<Rightarrow> addr option \<Rightarrow> string option \<Rightarrow> bool \<Rightarrow> string option \<Rightarrow> (addr option \<times> string option) option" where
  "walk_from s start path want_parent out_leaf =
     (case path of
        None \<Rightarrow> Some (None, out_leaf)
      | Some p \<Rightarrow>
          if path_tokens p = [] then Some (start_node s start p, out_leaf)
          else walk_loop (heap s) (start_node s start p) (path_tokens p) want_parent out_leaf)"

definition walk ::
  "fs \<Rightarrow> string option \<Rightarrow> bool \<Rightarrow> string option \<Rightarrow> (addr option \<times> string option) option" where
  "walk s path want_parent out_leaf = walk_from s (cwd s) path want_parent out_leaf"

definition fs_cd :: "time_t \<Rightarrow> string option \<Rightarrow> fs \<Rightarrow> (int \<times> fs) option" where
  "fs_cd now path s =
     (case walk_from s (cwd s) path False None of
        None \<Rightarrow> None
      | Some (None, _) \<Rightarrow> Some (- 1, s)
      | Some (Some d, _) \<Rightarrow>
          (case heap s d of
             None \<Rightarrow> None
           | Some dn \<Rightarrow>
               if ntype dn \<noteq> N_DIR then Some (- 1, s)
               else Some (0, s\<lparr>heap := (heap s)(d \<mapsto> dn\<lparr>accessed := now\<rparr>), cwd := Some d\<rparr>)))"

section \<open>Directory creation\<close>

text \<open>
  The loop of \<open>mkdir_p\<close>. \<open>al k\<close> is the answer of the \<open>k\<close>-th \<open>calloc\<close> of the call, and
  \<open>j\<close> is the index of the next clock reading.
\<close>

fun mkdir_loop ::
  "clock \<Rightarrow> nat \<Rightarrow> (nat \<Rightarrow> addr option) \<Rightarrow> nat \<Rightarrow> heap \<Rightarrow> addr option \<Rightarrow> string list
     \<Rightarrow> (int \<times> heap) option" where
  "mkdir_loop clk j al k h cur [] = Some (0, h)"
| "mkdir_loop clk j al k h cur (tok # rest) =
     (if length tok = 0 \<or> length tok > NAME_MAX then Some (- 1, h)
      else if tok = ''.'' then mkdir_loop clk j al k h cur rest
      else if tok = ''..'' then
        (case cur of
           None \<Rightarrow> None
         | Some c \<Rightarrow>
             (case h c of
                None \<Rightarrow> None
              | Some cn \<Rightarrow>
                  mkdir_loop clk j al k h (case parent cn of None \<Rightarrow> cur | Some p \<Rightarrow> Some p)
                    rest))
      else
        (case dir_find h cur tok of
           None \<Rightarrow> None
         | Some None \<Rightarrow>
             (case node_new (clk j) (al k) N_DIR tok cur h of
                None \<Rightarrow> None
              | Some (n, h1) \<Rightarrow>
                  (case dir_add (clk (Suc j)) h1 cur n of
                     None \<Rightarrow> None
                   | Some (None, h2) \<Rightarrow> Some (- 1, h2)
                   | Some (Some _, h2) \<Rightarrow> mkdir_loop clk (Suc (Suc j)) al (Suc k) h2 n rest))
         | Some (Some n) \<Rightarrow>
             (case h n of
                None \<Rightarrow> None
              | Some nn \<Rightarrow>
                  if ntype nn \<noteq> N_DIR then Some (- 1, h)
                  else mkdir_loop clk (Suc j) al k (h(n \<mapsto> nn\<lparr>accessed := clk j\<rparr>)) (Some n)
                         rest)))"

definition mkdir_p :: "clock \<Rightarrow> (nat \<Rightarrow> addr option) \<Rightarrow> string option \<Rightarrow> fs \<Rightarrow> (int \<times> fs) option" where
  "mkdir_p clk al path s =
     (case path of
        None \<Rightarrow> Some (- 1, s)
      | Some p \<Rightarrow>
          if p = ''/'' \<or> p = [] then Some (0, s)
          else if path_tokens p = [] then Some (0, s)
          else
            (case mkdir_loop clk 0 al 0 (heap s) (if take 1 p = ''/'' then root s else cwd s)
                    (path_tokens p) of
               None \<Rightarrow> None
             | Some (r, h) \<Rightarrow> Some (r, s\<lparr>heap := h\<rparr>)))"

section \<open>Files: creation, content buffer, path-based I/O\<close>

definition stamp :: "time_t \<Rightarrow> node \<Rightarrow> node" where
  "stamp now n = n\<lparr>modified := now, accessed := now\<rparr>"

definition create_file :: "clock \<Rightarrow> addr option \<Rightarrow> string option \<Rightarrow> fs \<Rightarrow> (int \<times> fs) option" where
  "create_file clk m path s =
     (case walk s path True (Some []) of
        None \<Rightarrow> None
      | Some (None, _) \<Rightarrow> Some (- 1, s)
      | Some (Some p, lf) \<Rightarrow>
          (case heap s p of
             None \<Rightarrow> None
           | Some pn \<Rightarrow>
               let leaf = (case lf of None \<Rightarrow> [] | Some l \<Rightarrow> l) in
               if ntype pn \<noteq> N_DIR then Some (- 1, s)
               else if leaf = [] then Some (- 1, s)
               else if leaf = ''.'' \<or> leaf = ''..'' then Some (- 1, s)
               else if length leaf > NAME_MAX then Some (- 1, s)
               else
                 (case dir_find (heap s) (Some p) leaf of
                    None \<Rightarrow> None
                  | Some (Some _) \<Rightarrow> Some (- 1, s)
                  | Some None \<Rightarrow>
                      if is_readonly pn then Some (- 1, s)
                      else
                        (case node_new (clk 0) m N_FILE leaf (Some p) (heap s) of
                           None \<Rightarrow> None
                         | Some (f, h1) \<Rightarrow>
                             (case dir_add (clk 1) h1 (Some p) f of
                                None \<Rightarrow> None
                              | Some (None, h2) \<Rightarrow>
                                  (case node_free h2 f of
                                     None \<Rightarrow> None
                                   | Some h3 \<Rightarrow> Some (- 1, s\<lparr>heap := h3\<rparr>))
                              | Some (Some _, h2) \<Rightarrow>
                                  (case h2 p of
                                     None \<Rightarrow> None
                                   | Some _ \<Rightarrow>
                                       Some (0, s\<lparr>heap := upd_node h2 p (stamp (clk 2))\<rparr>)))))))"

text \<open>
  The doubling loop of \<open>ensure_cap\<close>, on \<open>size_t\<close>: once the product wraps to 0 the loop
  never exits.
\<close>

partial_function (option) grow_cap :: "nat \<Rightarrow> nat \<Rightarrow> nat option" where
  "grow_cap newcap want =
     (if newcap < want then grow_cap ((newcap * 2) mod SIZE_MOD) want else Some newcap)"

declare grow_cap.simps [code]

text \<open>
  \<open>realloc_ok n\<close> says whether \<open>realloc\<close> to \<open>n\<close> bytes succeeds. The new block keeps the old
  bytes and \<open>memset\<close> zeroes the added region.
\<close>

definition ensure_cap :: "(nat \<Rightarrow> bool) \<Rightarrow> heap \<Rightarrow> addr \<Rightarrow> nat \<Rightarrow> (int \<times> heap) option" where
  "ensure_cap realloc_ok h f want =
     (case h f of
        None \<Rightarrow> None
      | Some fn \<Rightarrow>
          if cap fn \<ge> want then Some (0, h)
          else
            (case grow_cap (if cap fn \<noteq> 0 then cap fn else 64) want of
               None \<Rightarrow> None
             | Some newcap \<Rightarrow>
                 if \<not> realloc_ok newcap then Some (- 1, h)
                 else Some (0, h(f \<mapsto> fn\<lparr>data := data fn @ replicate (newcap - cap fn) 0\<rparr>))))"

text \<open>
  \<open>memcpy(f->data + off, buf, len)\<close>, byte by byte. The target address is computed on
  \<open>size_t\<close>, so the index of a byte in the block wraps at \<open>2^64\<close>. A byte whose index lies
  in the block is stored there. A byte whose index lies outside the block lands in
  memory that is not part of the store, which keeps no trace of it.
\<close>

fun poke_bytes :: "8 word list \<Rightarrow> nat \<Rightarrow> 8 word list \<Rightarrow> 8 word list" where
  "poke_bytes blk off [] = blk"
| "poke_bytes blk off (b # bs) =
     poke_bytes (if off < length blk then blk[off := b] else blk) ((off + 1) mod SIZE_MOD) bs"

text \<open>
  A file without a block has \<open>data = NULL\<close>: copying bytes through that pointer has no
  result.
\<close>

definition poke :: "8 word list \<Rightarrow> nat \<Rightarrow> 8 word list \<Rightarrow> 8 word list option" where
  "poke blk off buf = (if blk = [] \<and> buf \<noteq> [] then None else Some (poke_bytes blk off buf))"

text \<open>\<open>memcpy(buf, f->data + off, n)\<close>: defined when the source lies inside the block.\<close>

definition peek :: "8 word list \<Rightarrow> nat \<Rightarrow> nat \<Rightarrow> 8 word list option" where
  "peek blk off n = (if off + n > length blk then None else Some (take n (drop off blk)))"

text \<open>The bytes to write are \<open>buf\<close>; \<open>len\<close> is their number.\<close>

definition write_file ::
  "(nat \<Rightarrow> bool) \<Rightarrow> time_t \<Rightarrow> string option \<Rightarrow> nat \<Rightarrow> 8 word list \<Rightarrow> fs \<Rightarrow> (int \<times> fs) option" where
  "write_file realloc_ok now path off buf s =
     (case walk s path False None of
        None \<Rightarrow> None
      | Some (None, _) \<Rightarrow> Some (- 1, s)
      | Some (Some f, _) \<Rightarrow>
          (case heap s f of
             None \<Rightarrow> None
           | Some fn \<Rightarrow>
               if ntype fn \<noteq> N_FILE then Some (- 1, s)
               else if is_readonly fn then Some (- 1, s)
               else
                 let need = (off + length buf) mod SIZE_MOD in
                 (case ensure_cap realloc_ok (heap s) f need of
                    None \<Rightarrow> None
                  | Some (r, h1) \<Rightarrow>
                      if r < 0 then Some (- 1, s\<lparr>heap := h1\<rparr>)
                      else
                        (case h1 f of
                           None \<Rightarrow> None
                         | Some f1 \<Rightarrow>
                             (case poke (data f1) off buf of
                                None \<Rightarrow> None
                              | Some blk \<Rightarrow>
                                  Some (to_ssize (length buf),
                                    s\<lparr>heap := h1(f \<mapsto> stamp now
                                      (f1\<lparr>data := blk,
                                          fsize := (if need > fsize f1 then need else fsize f1)\<rparr>))\<rparr>))))))"

text \<open>The result is the returned count together with the bytes copied into \<open>buf\<close>.\<close>

definition read_file ::
  "time_t \<Rightarrow> string option \<Rightarrow> nat \<Rightarrow> nat \<Rightarrow> fs \<Rightarrow> ((int \<times> 8 word list) \<times> fs) option" where
  "read_file now path off len s =
     (case walk s path False None of
        None \<Rightarrow> None
      | Some (None, _) \<Rightarrow> Some ((- 1, []), s)
      | Some (Some f, _) \<Rightarrow>
          (case heap s f of
             None \<Rightarrow> None
           | Some fn \<Rightarrow>
               if ntype fn \<noteq> N_FILE then Some ((- 1, []), s)
               else if off \<ge> fsize fn then Some ((0, []), s)
               else
                 let n = (if fsize fn - off > len then len else fsize fn - off) in
                 (case peek (data fn) off n of
                    None \<Rightarrow> None
                  | Some bytes \<Rightarrow>
                      Some ((to_ssize n, bytes), s\<lparr>heap := (heap s)(f \<mapsto> fn\<lparr>accessed := now\<rparr>)\<rparr>))))"

section \<open>Removal\<close>

text \<open>\<open>children[i] = children[child_count-1]; child_count--\<close>.\<close>

definition swap_remove :: "addr list \<Rightarrow> nat \<Rightarrow> addr list" where
  "swap_remove cs i = butlast (cs[i := last cs])"

text \<open>The scan of \<open>rm_file\<close>: the first child that is a file of that name, with its index.\<close>

fun rm_find :: "heap \<Rightarrow> addr list \<Rightarrow> string \<Rightarrow> nat \<Rightarrow> (nat \<times> addr) option option" where
  "rm_find h [] leaf i = Some None"
| "rm_find h (c # cs) leaf i =
     (case h c of
        None \<Rightarrow> None
      | Some cn \<Rightarrow>
          if strncmp_eq (name cn) leaf NAME_MAX \<and> ntype cn = N_FILE then Some (Some (i, c))
          else rm_find h cs leaf (Suc i))"

definition rm_file :: "time_t \<Rightarrow> string option \<Rightarrow> fs \<Rightarrow> (int \<times> fs) option" where
  "rm_file now path s =
     (case walk s path True (Some []) of
        None \<Rightarrow> None
      | Some (None, _) \<Rightarrow> Some (- 1, s)
      | Some (Some p, lf) \<Rightarrow>
          (case heap s p of
             None \<Rightarrow> None
           | Some pn \<Rightarrow>
               if is_readonly pn then Some (- 1, s)
               else
                 (case rm_find (heap s) (children pn) (case lf of None \<Rightarrow> [] | Some l \<Rightarrow> l) 0 of
                    None \<Rightarrow> None
                  | Some None \<Rightarrow> Some (- 1, s)
                  | Some (Some (i, c)) \<Rightarrow>
                      (case heap s c of
                         None \<Rightarrow> None
                       | Some cn \<Rightarrow>
                           if is_readonly cn then Some (- 1, s)
                           else
                             (case node_free
                                     (upd_node (heap s) p
                                        (\<lambda>n. n\<lparr>children := swap_remove (children n) i\<rparr>))
                                     (Some c) of
                                None \<Rightarrow> None
                              | Some h2 \<Rightarrow>
                                  (case h2 p of
                                     None \<Rightarrow> None
                                   | Some _ \<Rightarrow>
                                       Some (0, s\<lparr>heap := upd_node h2 p (stamp now)\<rparr>)))))))"

text \<open>The scan of \<open>rmdir_empty\<close> and \<open>rename_file\<close>: the first index holding the pointer.\<close>

fun ptr_index :: "addr list \<Rightarrow> addr \<Rightarrow> nat \<Rightarrow> nat option" where
  "ptr_index [] d i = None"
| "ptr_index (c # cs) d i = (if c = d then Some i else ptr_index cs d (Suc i))"

definition rmdir_empty :: "time_t \<Rightarrow> string option \<Rightarrow> fs \<Rightarrow> (int \<times> fs) option" where
  "rmdir_empty now path s =
     (case walk s path False None of
        None \<Rightarrow> None
      | Some (None, _) \<Rightarrow> Some (- 1, s)
      | Some (Some d, _) \<Rightarrow>
          (case heap s d of
             None \<Rightarrow> None
           | Some dn \<Rightarrow>
               if ntype dn \<noteq> N_DIR \<or> Some d = root s then Some (- 1, s)
               else if child_count dn \<noteq> 0 then Some (- 1, s)
               else
                 (case parent dn of
                    None \<Rightarrow> None
                  | Some p \<Rightarrow>
                      (case heap s p of
                         None \<Rightarrow> None
                       | Some pn \<Rightarrow>
                           if is_readonly pn then Some (- 1, s)
                           else if is_readonly dn then Some (- 1, s)
                           else
                             (case ptr_index (children pn) d 0 of
                                None \<Rightarrow> Some (- 1, s)
                              | Some i \<Rightarrow>
                                  (case node_free
                                          (upd_node (heap s) p
                                             (\<lambda>n. n\<lparr>children := swap_remove (children n) i\<rparr>))
                                          (Some d) of
                                     None \<Rightarrow> None
                                   | Some h2 \<Rightarrow>
                                       (case h2 p of
                                          None \<Rightarrow> None
                                        | Some _ \<Rightarrow>
                                            Some (0, s\<lparr>heap := upd_node h2 p (stamp now)\<rparr>))))))))"

section \<open>Listing, metadata and search\<close>

text \<open>The lines \<open>ls_dir\<close> prints: each child's name, with a trailing \<open>/\<close> for a directory.\<close>

fun ls_lines :: "heap \<Rightarrow> addr list \<Rightarrow> string list option" where
  "ls_lines h [] = Some []"
| "ls_lines h (c # cs) =
     (case h c of
        None \<Rightarrow> None
      | Some cn \<Rightarrow>
          (case ls_lines h cs of
             None \<Rightarrow> None
           | Some ls \<Rightarrow> Some ((name cn @ (if ntype cn = N_DIR then ''/'' else [])) # ls)))"

definition ls_dir :: "time_t \<Rightarrow> string option \<Rightarrow> fs \<Rightarrow> ((int \<times> string list) \<times> fs) option" where
  "ls_dir now path s =
     (case (if path = None \<or> path = Some [] \<or> path = Some ''.'' then Some (cwd s, None)
            else if path = Some ''/'' then Some (root s, None)
            else walk s path False None) of
        None \<Rightarrow> None
      | Some (None, _) \<Rightarrow> Some ((- 1, []), s)
      | Some (Some d, _) \<Rightarrow>
          (case heap s d of
             None \<Rightarrow> None
           | Some dn \<Rightarrow>
               if ntype dn \<noteq> N_DIR then Some ((- 1, []), s)
               else
                 (case ls_lines ((heap s)(d \<mapsto> dn\<lparr>accessed := now\<rparr>)) (children dn) of
                    None \<Rightarrow> None
                  | Some ls \<Rightarrow>
                      Some ((0, ls), s\<lparr>heap := (heap s)(d \<mapsto> dn\<lparr>accessed := now\<rparr>)\<rparr>))))"

record file_info =
  fi_type :: node_type
  fi_name :: string
  fi_created :: time_t
  fi_modified :: time_t
  fi_accessed :: time_t
  fi_attributes :: "8 word"
  fi_size :: nat
  fi_child_count :: nat

text \<open>\<open>info\<close> says whether the caller's \<open>info\<close> pointer is not \<open>NULL\<close>.\<close>

definition get_file_info ::
  "time_t \<Rightarrow> string option \<Rightarrow> bool \<Rightarrow> fs \<Rightarrow> ((int \<times> file_info option) \<times> fs) option" where
  "get_file_info now path info s =
     (if \<not> info then Some ((- 1, None), s)
      else
        (case walk s path False None of
           None \<Rightarrow> None
         | Some (None, _) \<Rightarrow> Some ((- 1, None), s)
         | Some (Some n, _) \<Rightarrow>
             (case heap s n of
                None \<Rightarrow> None
              | Some nn \<Rightarrow>
                  Some ((0, Some \<lparr>fi_type = ntype nn, fi_name = take NAME_MAX (name nn),
                                   fi_created = created nn, fi_modified = modified nn,
                                   fi_accessed = accessed nn, fi_attributes = attributes nn,
                                   fi_size = (if ntype nn = N_FILE then fsize nn else 0),
                                   fi_child_count =
                                     (if ntype nn = N_FILE then 0 else child_count nn)\<rparr>),
                        s\<lparr>heap := (heap s)(n \<mapsto> nn\<lparr>accessed := now\<rparr>)\<rparr>))))"

definition set_file_attributes ::
  "time_t \<Rightarrow> string option \<Rightarrow> 8 word \<Rightarrow> fs \<Rightarrow> (int \<times> fs) option" where
  "set_file_attributes now path attrs s =
     (case walk s path False None of
        None \<Rightarrow> None
      | Some (None, _) \<Rightarrow> Some (- 1, s)
      | Some (Some n, _) \<Rightarrow>
          (case heap s n of
             None \<Rightarrow> None
           | Some nn \<Rightarrow>
               Some (0, s\<lparr>heap := (heap s)(n \<mapsto> nn\<lparr>attributes := attrs, modified := now\<rparr>)\<rparr>)))"

definition touch_file :: "time_t \<Rightarrow> string option \<Rightarrow> fs \<Rightarrow> (int \<times> fs) option" where
  "touch_file now path s =
     (case walk s path False None of
        None \<Rightarrow> None
      | Some (None, _) \<Rightarrow> Some (- 1, s)
      | Some (Some n, _) \<Rightarrow>
          (case heap s n of
             None \<Rightarrow> None
           | Some nn \<Rightarrow>
               Some (0, s\<lparr>heap := (heap s)(n \<mapsto> nn\<lparr>accessed := now, modified := now\<rparr>)\<rparr>)))"

text \<open>\<open>strstr(s, t) != NULL\<close>.\<close>

fun strstr :: "string \<Rightarrow> string \<Rightarrow> bool" where
  "strstr [] t = (t = [])"
| "strstr (c # cs) t = (take (length t) (c # cs) = t \<or> strstr cs t)"

text \<open>
  \<open>search_subtree\<close>, with the recursion over the child arrays on an explicit stack of the
  nodes still to visit; the result is the number of matches. The paths it prints are not
  modelled: \<open>node_get_path\<close> only reads the store.
\<close>

partial_function (option) search_tasks ::
  "clock \<Rightarrow> nat \<Rightarrow> addr option \<Rightarrow> string \<Rightarrow> heap \<Rightarrow> addr list \<Rightarrow> nat \<Rightarrow> (nat \<times> heap) option" where
  "search_tasks clk j rt term h ts k =
     (case ts of
        [] \<Rightarrow> Some (k, h)
      | a # rest \<Rightarrow>
          (case h a of
             None \<Rightarrow> None
           | Some n \<Rightarrow>
               search_tasks clk (Suc j) rt term (h(a \<mapsto> n\<lparr>accessed := clk j\<rparr>))
                 ((if ntype n = N_DIR then children n else []) @ rest)
                 (if Some a \<noteq> rt \<and> strstr (name n) term then Suc k else k)))"

declare search_tasks.simps [code]

definition fs_search :: "clock \<Rightarrow> string option \<Rightarrow> fs \<Rightarrow> (int \<times> fs) option" where
  "fs_search clk term s =
     (if term = None \<or> term = Some [] then Some (- 1, s)
      else
        (case cwd s of
           None \<Rightarrow> Some (0, s)
         | Some c \<Rightarrow>
             (case search_tasks clk 0 (root s) (case term of None \<Rightarrow> [] | Some t \<Rightarrow> t)
                     (heap s) [c] 0 of
                None \<Rightarrow> None
              | Some (k, h) \<Rightarrow> Some (int k, s\<lparr>heap := h\<rparr>))))"

section \<open>Rename and move\<close>

text \<open>The tail of \<open>rename_file\<close>: store the name, stamp the node and its parent.\<close>

definition rename_finish :: "time_t \<Rightarrow> addr \<Rightarrow> string \<Rightarrow> heap \<Rightarrow> heap option" where
  "rename_finish now n new_name h =
     (case h n of
        None \<Rightarrow> None
      | Some nn \<Rightarrow>
          let h1 = h(n \<mapsto> nn\<lparr>name := take NAME_MAX new_name, modified := now\<rparr>) in
          (case parent nn of
             None \<Rightarrow> Some h1
           | Some p \<Rightarrow>
               (case h1 p of
                  None \<Rightarrow> None
                | Some pn \<Rightarrow> Some (h1(p \<mapsto> pn\<lparr>modified := now\<rparr>)))))"

text \<open>The branch of \<open>rename_file\<close> taken when the node moves to another directory.\<close>

definition rename_move ::
  "clock \<Rightarrow> addr \<Rightarrow> addr option \<Rightarrow> addr \<Rightarrow> string \<Rightarrow> heap \<Rightarrow> (int \<times> heap) option" where
  "rename_move clk n old_parent new_parent new_name h =
     (case old_parent of
        None \<Rightarrow> None
      | Some op \<Rightarrow>
          (case h op of
             None \<Rightarrow> None
           | Some opn \<Rightarrow>
               let h1 = h(op \<mapsto> opn\<lparr>children :=
                            (case ptr_index (children opn) n 0 of
                               None \<Rightarrow> children opn
                             | Some i \<Rightarrow> swap_remove (children opn) i)\<rparr>);
                   h2 = upd_node h1 n (\<lambda>x. x\<lparr>parent := None\<rparr>)
               in
               (case dir_add (clk 0) h2 (Some new_parent) (Some n) of
                  None \<Rightarrow> None
                | Some (None, h3) \<Rightarrow>
                    (case dir_add (clk 0) h3 (Some op) (Some n) of
                       None \<Rightarrow> None
                     | Some (_, h4) \<Rightarrow> Some (- 1, h4))
                | Some (Some _, h3) \<Rightarrow>
                    (case h3 op of
                       None \<Rightarrow> None
                     | Some _ \<Rightarrow>
                         (case rename_finish (clk 2) n new_name
                                 (upd_node h3 op (stamp (clk 1))) of
                            None \<Rightarrow> None
                          | Some h5 \<Rightarrow> Some (0, h5))))))"

definition rename_file ::
  "clock \<Rightarrow> string option \<Rightarrow> string option \<Rightarrow> fs \<Rightarrow> (int \<times> fs) option" where
  "rename_file clk old_path new_path s =
     (if old_path = None \<or> new_path = None then Some (- 1, s)
      else
        (case walk s old_path False None of
           None \<Rightarrow> None
         | Some (None, _) \<Rightarrow> Some (- 1, s)
         | Some (Some n, _) \<Rightarrow>
             if Some n = root s then Some (- 1, s)
             else
               (case heap s n of
                  None \<Rightarrow> None
                | Some nn \<Rightarrow>
                    if is_readonly nn then Some (- 1, s)
                    else
                      (case (case parent nn of
                               None \<Rightarrow> Some False
                             | Some p \<Rightarrow>
                                 (case heap s p of
                                    None \<Rightarrow> None
                                  | Some pn \<Rightarrow> Some (is_readonly pn))) of
                         None \<Rightarrow> None
                       | Some True \<Rightarrow> Some (- 1, s)
                       | Some False \<Rightarrow>
                           (case walk s new_path True (Some []) of
                              None \<Rightarrow> None
                            | Some (None, _) \<Rightarrow> Some (- 1, s)
                            | Some (Some np, lf) \<Rightarrow>
                                (case heap s np of
                                   None \<Rightarrow> None
                                 | Some npn \<Rightarrow>
                                     let new_name = (case lf of None \<Rightarrow> [] | Some l \<Rightarrow> l) in
                                     if ntype npn \<noteq> N_DIR then Some (- 1, s)
                                     else if is_readonly npn then Some (- 1, s)
                                     else
                                       (case dir_find (heap s) (Some np) new_name of
                                          None \<Rightarrow> None
                                        | Some (Some _) \<Rightarrow> Some (- 1, s)
                                        | Some None \<Rightarrow>
                                            if parent nn \<noteq> Some np then
                                              (case rename_move clk n (parent nn) np new_name
                                                      (heap s) of
                                                 None \<Rightarrow> None
                                               | Some (r, h) \<Rightarrow> Some (r, s\<lparr>heap := h\<rparr>))
                                            else
                                              (case rename_finish (clk 0) n new_name (heap s) of
                                                 None \<Rightarrow> None
                                               | Some h \<Rightarrow> Some (0, s\<lparr>heap := h\<rparr>)))))))))"

section \<open>Descriptor table\<close>

definition fd_ok :: "fs \<Rightarrow> int \<Rightarrow> bool" where
  "fd_ok s fd = (\<not> (fd < 0 \<or> fd \<ge> int MAX_OPEN_FILES \<or> \<not> in_use (fd_table s (nat fd))))"

definition fs_open :: "time_t \<Rightarrow> string option \<Rightarrow> int \<Rightarrow> fs \<Rightarrow> (int \<times> fs) option" where
  "fs_open now path fl s =
     (case walk s path False None of
        None \<Rightarrow> None
      | Some (None, _) \<Rightarrow> Some (- 1, s)
      | Some (Some n, _) \<Rightarrow>
          (case heap s n of
             None \<Rightarrow> None
           | Some nn \<Rightarrow>
               if ntype nn \<noteq> N_FILE then Some (- 1, s)
               else if (fl AND O_WRONLY \<noteq> 0 \<or> fl AND O_RDWR \<noteq> 0) \<and> is_readonly nn
               then Some (- 1, s)
               else
                 (case find (\<lambda>i. \<not> in_use (fd_table s i)) [0..<MAX_OPEN_FILES] of
                    None \<Rightarrow> Some (- 1, s)
                  | Some i \<Rightarrow>
                      Some (int i,
                        s\<lparr>fd_table := (fd_table s)
                             (i := \<lparr>fd_node = Some n, offset = 0, flags = fl, in_use = True\<rparr>),
                          heap := (heap s)(n \<mapsto> nn\<lparr>accessed := now\<rparr>)\<rparr>))))"

definition fs_close :: "int \<Rightarrow> fs \<Rightarrow> (int \<times> fs) option" where
  "fs_close fd s =
     (if \<not> fd_ok s fd then Some (- 1, s)
      else Some (0, s\<lparr>fd_table := (fd_table s)
                        (nat fd := \<lparr>fd_node = None, offset = 0, flags = 0, in_use = False\<rparr>)\<rparr>))"

text \<open>\<open>buf\<close> says whether the caller's buffer pointer is not \<open>NULL\<close>.\<close>

definition fs_read_fd ::
  "time_t \<Rightarrow> int \<Rightarrow> bool \<Rightarrow> nat \<Rightarrow> fs \<Rightarrow> ((int \<times> 8 word list) \<times> fs) option" where
  "fs_read_fd now fd buf len s =
     (if \<not> fd_ok s fd then Some ((- 1, []), s)
      else if \<not> buf then Some ((- 1, []), s)
      else
        let f = fd_table s (nat fd) in
        if flags f AND O_RDONLY = 0 \<and> flags f AND O_RDWR = 0 then Some ((- 1, []), s)
        else
          (case fd_node f of
             None \<Rightarrow> Some ((- 1, []), s)
           | Some n \<Rightarrow>
               (case heap s n of
                  None \<Rightarrow> None
                | Some nn \<Rightarrow>
                    if ntype nn \<noteq> N_FILE then Some ((- 1, []), s)
                    else if offset f \<ge> fsize nn then Some ((0, []), s)
                    else
                      let to_read =
                        (if fsize nn - offset f > len then len else fsize nn - offset f) in
                      (case peek (data nn) (offset f) to_read of
                         None \<Rightarrow> None
                       | Some bytes \<Rightarrow>
                           Some ((to_ssize to_read, bytes),
                             s\<lparr>fd_table := (fd_table s)
                                  (nat fd := f\<lparr>offset := (offset f + to_read) mod SIZE_MOD\<rparr>),
                               heap := (heap s)(n \<mapsto> nn\<lparr>accessed := now\<rparr>)\<rparr>)))))"

text \<open>\<open>buf\<close> is \<open>None\<close> for a \<open>NULL\<close> pointer, else the \<open>len\<close> bytes to write.\<close>

definition fs_write_fd ::
  "(nat \<Rightarrow> bool) \<Rightarrow> time_t \<Rightarrow> int \<Rightarrow> 8 word list option \<Rightarrow> fs \<Rightarrow> (int \<times> fs) option" where
  "fs_write_fd realloc_ok now fd buf s =
     (if \<not> fd_ok s fd then Some (- 1, s)
      else
        (case buf of
           None \<Rightarrow> Some (- 1, s)
         | Some bytes \<Rightarrow>
             let f = fd_table s (nat fd) in
             if flags f AND O_WRONLY = 0 \<and> flags f AND O_RDWR = 0 then Some (- 1, s)
             else
               (case fd_node f of
                  None \<Rightarrow> Some (- 1, s)
                | Some n \<Rightarrow>
                    (case heap s n of
                       None \<Rightarrow> None
                     | Some nn \<Rightarrow>
                         if ntype nn \<noteq> N_FILE then Some (- 1, s)
                         else if is_readonly nn then Some (- 1, s)
                         else
                           let need = (offset f + length bytes) mod SIZE_MOD in
                           (case ensure_cap realloc_ok (heap s) n need of
                              None \<Rightarrow> None
                            | Some (r, h1) \<Rightarrow>
                                if r < 0 then Some (- 1, s\<lparr>heap := h1\<rparr>)
                                else
                                  (case h1 n of
                                     None \<Rightarrow> None
                                   | Some n1 \<Rightarrow>
                                       (case poke (data n1) (offset f) bytes of
                                          None \<Rightarrow> None
                                        | Some blk \<Rightarrow>
                                            Some (to_ssize (length bytes),
                                              s\<lparr>fd_table := (fd_table s)
                                                   (nat fd := f\<lparr>offset := need\<rparr>),
                                                heap := h1(n \<mapsto> stamp now
                                                  (n1\<lparr>data := blk,
                                                      fsize := (if need > fsize n1 then need
                                                                else fsize n1)\<rparr>))\<rparr>))))))))"

text \<open>
  \<open>off_t\<close> arithmetic is signed: a sum outside the 64-bit range has no defined result.
\<close>

definition off_add :: "int \<Rightarrow> int \<Rightarrow> int option" where
  "off_add a b = (if - (2 ^ 63) \<le> a + b \<and> a + b < 2 ^ 63 then Some (a + b) else None)"

definition fs_seek :: "int \<Rightarrow> int \<Rightarrow> int \<Rightarrow> fs \<Rightarrow> (int \<times> fs) option" where
  "fs_seek fd ofs whence s =
     (if \<not> fd_ok s fd then Some (- 1, s)
      else
        let f = fd_table s (nat fd) in
        (case fd_node f of
           None \<Rightarrow> Some (- 1, s)
         | Some n \<Rightarrow>
             (case heap s n of
                None \<Rightarrow> None
              | Some nn \<Rightarrow>
                  if ntype nn \<noteq> N_FILE then Some (- 1, s)
                  else
                    (case (if whence = 0 then Some (Some ofs)
                           else if whence = 1 then
                             (case off_add (to_ssize (offset f)) ofs of
                                None \<Rightarrow> None | Some v \<Rightarrow> Some (Some v))
                           else if whence = 2 then
                             (case off_add (to_ssize (fsize nn)) ofs of
                                None \<Rightarrow> None | Some v \<Rightarrow> Some (Some v))
                           else Some None) of
                       None \<Rightarrow> None
                     | Some None \<Rightarrow> Some (- 1, s)
                     | Some (Some new_offset) \<Rightarrow>
                         if new_offset < 0 then Some (- 1, s)
                         else Some (new_offset,
                           s\<lparr>fd_table := (fd_table s)
                                (nat fd := f\<lparr>offset := nat new_offset\<rparr>)\<rparr>)))))"

section \<open>A concrete store\<close>

text \<open>
  A clock that starts at \<open>t\<close> and advances by one at each reading.
\<close>

definition ticks :: "time_t \<Rightarrow> clock" where
  "ticks t j = t + int j"

text \<open>
  The store used to instantiate the theorems below: the root holds the directory
  \<open>docs\<close> (with the read-only file \<open>ro\<close>), the file \<open>f\<close> with the two bytes \<open>AB\<close> in a
  block of 64, and the read-only empty directory \<open>locked\<close>. No descriptor is open.
\<close>

definition ab_block :: "8 word list" where
  "ab_block = 65 # 66 # replicate 62 0"

definition mk_node ::
  "node_type \<Rightarrow> string \<Rightarrow> addr option \<Rightarrow> 8 word \<Rightarrow> addr list \<Rightarrow> 8 word list \<Rightarrow> nat \<Rightarrow> node" where
  "mk_node t nm par attrs kids bytes sz =
     \<lparr>ntype = t, name = nm, parent = par, created = 0, modified = 0, accessed = 0,
      attributes = attrs, children = kids, data = bytes, fsize = sz\<rparr>"

definition no_fd :: file_descriptor where
  "no_fd = \<lparr>fd_node = None, offset = 0, flags = 0, in_use = False\<rparr>"

definition fs_example :: fs where
  "fs_example =
     \<lparr>heap = [0 \<mapsto> mk_node N_DIR [] None 0 [1, 2, 4] [] 0,
              1 \<mapsto> mk_node N_DIR ''docs'' (Some 0) 0 [3] [] 0,
              2 \<mapsto> mk_node N_FILE ''f'' (Some 0) 0 [] ab_block 2,
              3 \<mapsto> mk_node N_FILE ''ro'' (Some 1) ATTR_READONLY [] [] 0,
              4 \<mapsto> mk_node N_DIR ''locked'' (Some 0) ATTR_READONLY [] [] 0],
      root = Some 0, cwd = Some 0, fd_table = (\<lambda>i. no_fd)\<rparr>"

text \<open>
  The store of a freshly started program (the globals are zero-initialised), and the
  sequencing of calls: the next call runs on the store the previous one left.
\<close>

definition fs_boot :: fs where
  "fs_boot = \<lparr>heap = Map.empty, root = None, cwd = None, fd_table = (\<lambda>i. no_fd)\<rparr>"

definition then_call :: "('a \<times> fs) option \<Rightarrow> (fs \<Rightarrow> ('b \<times> fs) option) \<Rightarrow> ('b \<times> fs) option" where
  "then_call r f = (case r of None \<Rightarrow> None | Some (x, s) \<Rightarrow> f s)"

text \<open>The same store with the file \<open>f\<close> open on every descriptor.\<close>

definition fs_full :: fs where
  "fs_full = fs_example\<lparr>fd_table :=
     (\<lambda>i. \<lparr>fd_node = Some 2, offset = 0, flags = O_RDONLY, in_use = True\<rparr>)\<rparr>"

text \<open>The same store with the file \<open>f\<close> open on the descriptors 0 and 1.\<close>

definition fs_two_open :: fs where
  "fs_two_open = fs_example\<lparr>fd_table :=
     (\<lambda>i. if i < 2 then \<lparr>fd_node = Some 2, offset = 0, flags = O_RDONLY, in_use = True\<rparr>
          else no_fd)\<rparr>"

text \<open>The store after \<open>fs_open("/f", O_WRONLY)\<close> at time 70.\<close>

definition fs_wronly :: fs where
  "fs_wronly = fs_example
     \<lparr>fd_table := (fd_table fs_example)
        (0 := \<lparr>fd_node = Some 2, offset = 0, flags = O_WRONLY, in_use = True\<rparr>),
      heap := (heap fs_example)
        (2 \<mapsto> (mk_node N_FILE ''f'' (Some 0) 0 [] ab_block 2)\<lparr>accessed := 70\<rparr>)\<rparr>"

text \<open>The store after writing the three bytes \<open>XYZ\<close> at offset 3 of \<open>/f\<close> at time 90.\<close>

definition fs_written :: fs where
  "fs_written = fs_example\<lparr>heap := (heap fs_example)
     (2 \<mapsto> \<lparr>ntype = N_FILE, name = ''f'', parent = Some 0, created = 0, modified = 90,
             accessed = 90, attributes = 0, children = [],
             data = [65, 66, 0, 88, 89, 90] @ replicate 58 0, fsize = 6\<rparr>)\<rparr>"

text \<open>
  The store after writing the two bytes \<open>XY\<close> at offset \<open>SIZE_MAX\<close> of \<open>/f\<close> at time 90: the
  first byte lands before the block, the second on its first byte, and the size stays 2.
\<close>

definition fs_wrapped :: fs where
  "fs_wrapped = fs_example\<lparr>heap := (heap fs_example)
     (2 \<mapsto> \<lparr>ntype = N_FILE, name = ''f'', parent = Some 0, created = 0, modified = 90,
             accessed = 90, attributes = 0, children = [],
             data = 89 # 66 # replicate 62 0, fsize = 2\<rparr>)\<rparr>"

text \<open>The store after the failed \<open>mkdir_p("/new/../f/x")\<close> with the clock \<open>ticks 50\<close>.\<close>

definition fs_after_mkdir :: fs where
  "fs_after_mkdir = fs_example\<lparr>heap := (heap fs_example)
     (10 \<mapsto> \<lparr>ntype = N_DIR, name = ''new'', parent = Some 0, created = 50, modified = 50,
              accessed = 50, attributes = 0, children = [], data = [], fsize = 0\<rparr>,
      0 \<mapsto> \<lparr>ntype = N_DIR, name = [], parent = None, created = 0, modified = 51,
             accessed = 51, attributes = 0, children = [1, 2, 4, 10], data = [], fsize = 0\<rparr>)\<rparr>"

section \<open>Notions used in the proofs\<close>

text \<open>
  What the path resolver reads of a node. Two heaps of the same shape hold the same
  nodes with the same types, names, parents and children.
\<close>

definition shape :: "node \<Rightarrow> node_type \<times> string \<times> addr option \<times> addr list" where
  "shape n = (ntype n, name n, parent n, children n)"

definition same_shape :: "heap \<Rightarrow> heap \<Rightarrow> bool" where
  "same_shape h h' = (\<forall>a. map_option shape (h' a) = map_option shape (h a))"

text \<open>
  The attribute bitsets of the live nodes. \<open>attrs_kept s s'\<close> says that every node that
  is live in both stores carries the same attribute bitset in both.
\<close>

definition attr_map :: "heap \<Rightarrow> addr \<Rightarrow> 8 word option" where
  "attr_map h a = map_option attributes (h a)"

definition attrs_kept :: "fs \<Rightarrow> fs \<Rightarrow> bool" where
  "attrs_kept s s' =
     (\<forall>a n n'. heap s a = Some n \<and> heap s' a = Some n' \<longrightarrow> attributes n' = attributes n)"

section \<open>Facts about the byte copy\<close>

text \<open>A copy that stays inside the block replaces the bytes from \<open>off\<close> on by the buffer.\<close>

lemma poke_bytes_in_block:
  "off + length buf \<le> length blk \<Longrightarrow> length blk \<le> SIZE_MOD \<Longrightarrow>
   poke_bytes blk off buf = take off blk @ buf @ drop (off + length buf) blk"
proof (induction buf arbitrary: blk off)
  case Nil
  then show ?case by simp
next
  case (Cons b bs)
  then have O: "off < length blk" by simp
  show ?case
  proof (cases bs)
    case Nil
    with O show ?thesis by (simp add: upd_conv_take_nth_drop)
  next
    case (Cons c cs)
    with Cons.prems have M: "(off + 1) mod SIZE_MOD = off + 1" by simp
    have "poke_bytes (blk[off := b]) (off + 1) bs
            = take (off + 1) (blk[off := b]) @ bs @ drop (off + 1 + length bs) (blk[off := b])"
      using Cons.prems by (intro Cons.IH) simp_all
    also have "take (off + 1) (blk[off := b]) = take off blk @ [b]"
      using O by (simp add: take_Suc_conv_app_nth)
    finally show ?thesis
      using O M by simp
  qed
qed

lemma poke_in_block:
  "off + length buf \<le> length blk \<Longrightarrow> length blk \<le> SIZE_MOD \<Longrightarrow>
   poke blk off buf = Some (take off blk @ buf @ drop (off + length buf) blk)"
  by (auto simp: poke_def poke_bytes_in_block)

section \<open>Facts about the path resolver\<close>

lemmas ex_defs = fs_example_def mk_node_def ab_block_def no_fd_def walk_def walk_from_def
  start_node_def path_tokens_def dir_find_def strncmp_eq_def NAME_MAX_def

text \<open>The concrete store is the one these calls build, with the clock at 0.\<close>

lemma fs_example_reachable:
  "then_call (then_call (then_call (then_call (then_call (then_call (then_call
     (fs_init 0 (Some 0) fs_boot)
     (mkdir_p (\<lambda>j. 0) (\<lambda>k. Some 1) (Some ''/docs'')))
     (create_file (\<lambda>j. 0) (Some 2) (Some ''/f'')))
     (write_file (\<lambda>n. True) 0 (Some ''/f'') 0 [65, 66]))
     (create_file (\<lambda>j. 0) (Some 3) (Some ''docs/ro'')))
     (set_file_attributes 0 (Some ''/docs/ro'') ATTR_READONLY))
     (mkdir_p (\<lambda>j. 0) (\<lambda>k. Some 4) (Some ''/locked'')))
     (set_file_attributes 0 (Some ''/locked'') ATTR_READONLY)
   = Some (0, fs_example)"
proof -
  have g: "grow_cap 64 2 = Some 64"
    by (simp add: grow_cap.simps [of 64 2])
  show ?thesis
    by (simp add: then_call_def fs_boot_def fs_init_def mkdir_p_def create_file_def
        write_file_def set_file_attributes_def ensure_cap_def cap_def poke_in_block stamp_def g
        to_ssize_def SIZE_MOD_def is_readonly_def ATTR_READONLY_def ATTR_NONE_def
        node_new_def dir_add_def upd_node_def MAX_CHILDREN_def child_count_def
        ex_defs fun_upd_twist numeral_2_eq_2 [symmetric])
qed

lemma walk_loop_dot: "walk_loop h cur (''.'' # rest) wp leaf = walk_loop h cur rest wp leaf"
  by (simp add: NAME_MAX_def)

text \<open>
  Running the loop on \<open>pre\<close> followed by \<open>.\<close> returns the node the loop stands on once the
  segments \<open>pre\<close> are consumed as non-final segments. From there the loop goes on with the
  remaining segments.
\<close>

lemma walk_loop_prefix:
  "walk_loop h cur (pre @ [''.'']) wp leaf = Some (Some d, l) \<Longrightarrow> rest \<noteq> [] \<Longrightarrow>
   walk_loop h cur (pre @ rest) wp leaf = walk_loop h (Some d) rest wp leaf \<and> l = leaf"
proof (induction pre arbitrary: cur)
  case Nil
  then show ?case by (simp add: NAME_MAX_def)
next
  case (Cons tok pre)
  show ?case
  proof (cases "tok = ''.'' \<or> length tok = 0 \<or> length tok > NAME_MAX")
    case True
    with Cons show ?thesis by (auto simp: NAME_MAX_def)
  next
    case False
    note F = this
    show ?thesis
    proof (cases "tok = ''..''")
      case True
      with Cons.prems F show ?thesis
        using Cons.IH by (auto simp: NAME_MAX_def split: option.splits)
    next
      case False
      with Cons.prems F show ?thesis
        using Cons.IH by (auto split: option.splits if_splits)
    qed
  qed
qed

lemma walk_loop_leaf_kept:
  "walk_loop h cur toks wp leaf = Some (w, l) \<Longrightarrow>
   toks = [] \<or> last toks = ''.'' \<or> last toks = ''..'' \<or> \<not> wp \<Longrightarrow> l = leaf"
proof (induction toks arbitrary: cur)
  case Nil
  then show ?case by simp
next
  case (Cons tok toks)
  then show ?case
    by (cases "toks = []") (auto split: option.splits if_splits)
qed

lemma walk_loop_too_long:
  "walk_loop h cur toks wp leaf = Some (w, l) \<Longrightarrow> toks \<noteq> [] \<Longrightarrow>
   length (last toks) > NAME_MAX \<Longrightarrow> w = None \<and> l = leaf"
proof (induction toks arbitrary: cur)
  case Nil
  then show ?case by simp
next
  case (Cons tok toks)
  then show ?case
    by (cases "toks = []") (auto simp: NAME_MAX_def split: option.splits if_splits)
qed

section \<open>Claims about the node store\<close>

text \<open>
  C7 (as amended). \<open>node_new\<close> has no failure path and no length test: for every name,
  whatever its length, a successful \<open>calloc\<close> yields a node. Its name is the first
  \<open>NAME_MAX = 32\<close> bytes of the given name (a longer name is cut by \<open>strncpy\<close>, not refused),
  its attribute bitset is \<open>ATTR_NONE\<close>, and its created, modified and accessed times are
  all the current time.
\<close>

theorem node_new_never_fails:
  assumes "h a = None"
  shows "\<exists>n. node_new now (Some a) t nm par h = Some (Some a, h(a \<mapsto> n))
           \<and> ntype n = t \<and> name n = take NAME_MAX nm \<and> parent n = par
           \<and> attributes n = ATTR_NONE
           \<and> created n = now \<and> modified n = now \<and> accessed n = now"
  using assms by (force simp: node_new_def)

theorem node_new_never_fails_witness:
  "(Map.empty :: heap) 0 = None
   \<and> length ''a_name_that_is_longer_than_thirty_one_bytes'' = 43
   \<and> (\<exists>n. node_new 7 (Some 0) N_FILE ''a_name_that_is_longer_than_thirty_one_bytes'' None Map.empty
            = Some (Some 0, [0 \<mapsto> n])
          \<and> ntype n = N_FILE \<and> name n = ''a_name_that_is_longer_than_thirt'' \<and> parent n = None
          \<and> attributes n = ATTR_NONE
          \<and> created n = 7 \<and> modified n = 7 \<and> accessed n = 7)"
  using node_new_never_fails [of Map.empty 0 7 N_FILE "''a_name_that_is_longer_than_thirty_one_bytes''" None]
  by (simp add: NAME_MAX_def)

text \<open>
  C7 as stated fails: names of 32 and of 43 bytes exceed the bound, and \<open>node_new\<close>
  returns a node for each (the first is the call \<open>create_file\<close> makes for a leaf of 32
  bytes in \<open>/docs\<close>).
\<close>

theorem node_new_long_name_counterexample:
  "length ''name_of_exactly_thirty_two_bytes'' = 32
   \<and> map_option fst
        (node_new 7 (Some 9) N_FILE ''name_of_exactly_thirty_two_bytes'' (Some 1)
           (heap fs_example))
      = Some (Some 9)
   \<and> length ''a_name_that_is_longer_than_thirty_one_bytes'' = 43
   \<and> map_option fst
        (node_new 7 (Some 0) N_FILE ''a_name_that_is_longer_than_thirty_one_bytes'' None Map.empty)
      = Some (Some 0)"
  by (simp add: node_new_def fs_example_def)

section \<open>Claims about the path resolver\<close>

text \<open>
  C4. An empty segment list (the path \<open>""\<close>, the path \<open>/\<close>, any path without a segment)
  resolves to the start node: the root for an absolute path, else the given start.
  A path with segments is resolved by the loop over its segments, which returns the
  current node once every segment is consumed.
  A \<open>.\<close> segment leaves the current node unchanged: the loop goes on from the same node,
  and a final \<open>.\<close> returns it. A \<open>..\<close> segment moves to the parent: the loop goes on from
  the parent, and a final \<open>..\<close> returns the parent; at the root, which has no parent, the
  loop stays at the root and goes on, and a final \<open>..\<close> returns the root.
  A non-final segment other than \<open>.\<close> and \<open>..\<close> that \<open>dir_find\<close> finds as a directory
  makes the loop go on from that directory. One that \<open>dir_find\<close> does not find in the
  directory reached so far, or finds as a file, makes the resolution of the whole path
  return \<open>NULL\<close>.
\<close>

theorem walk_from_segments:
  "walk_from s start (Some []) wp leaf = Some (case start of None \<Rightarrow> root s | Some a \<Rightarrow> Some a, leaf)
   \<and> walk_from s start (Some ''/'') wp leaf = Some (root s, leaf)
   \<and> (path_tokens p = [] \<longrightarrow> walk_from s start (Some p) wp leaf = Some (start_node s start p, leaf))
   \<and> (path_tokens p \<noteq> [] \<longrightarrow>
        walk_from s start (Some p) wp leaf
          = walk_loop (heap s) (start_node s start p) (path_tokens p) wp leaf)
   \<and> walk_loop h cur [] wp leaf = Some (cur, leaf)
   \<and> walk_loop h cur (''.'' # rest) wp leaf = walk_loop h cur rest wp leaf
   \<and> walk_loop h cur [''.''] wp leaf = Some (cur, leaf)
   \<and> (h c = Some cn \<and> parent cn = Some q \<longrightarrow>
        walk_loop h (Some c) (''..'' # rest) wp leaf = walk_loop h (Some q) rest wp leaf
        \<and> walk_loop h (Some c) [''..''] wp leaf = Some (Some q, leaf))
   \<and> (root s = Some r \<and> heap s r = Some rn \<and> parent rn = None \<longrightarrow>
        walk_loop (heap s) (root s) (''..'' # rest) wp leaf = walk_loop (heap s) (root s) rest wp leaf
        \<and> walk_loop (heap s) (root s) [''..''] wp leaf = Some (root s, leaf))
   \<and> (rest \<noteq> [] \<and> seg \<noteq> ''.'' \<and> seg \<noteq> ''..'' \<and> 1 \<le> length seg \<and> length seg \<le> NAME_MAX
        \<and> dir_find h cur seg = Some (Some nxt) \<and> h nxt = Some nn \<and> ntype nn = N_DIR \<longrightarrow>
        walk_loop h cur (seg # rest) wp leaf = walk_loop h (Some nxt) rest wp leaf)
   \<and> (path_tokens p = pre @ tok # ys \<and> ys \<noteq> [] \<and> tok \<noteq> ''.'' \<and> tok \<noteq> ''..''
        \<and> walk_loop (heap s) (start_node s start p) (pre @ [''.'']) wp leaf = Some (Some d, l)
        \<and> (dir_find (heap s) (Some d) tok = Some None
             \<or> dir_find (heap s) (Some d) tok = Some (Some f) \<and> heap s f = Some fnode
                 \<and> ntype fnode = N_FILE)
        \<longrightarrow> walk_from s start (Some p) wp leaf = Some (None, leaf))"
proof -
  have a: "walk_from s start (Some []) wp leaf
             = Some (case start of None \<Rightarrow> root s | Some a \<Rightarrow> Some a, leaf)"
    by (simp add: walk_from_def path_tokens_def start_node_def)
  have b: "walk_from s start (Some ''/'') wp leaf = Some (root s, leaf)"
    by (simp add: walk_from_def path_tokens_def start_node_def)
  have c: "path_tokens p = [] \<longrightarrow> walk_from s start (Some p) wp leaf = Some (start_node s start p, leaf)"
    by (simp add: walk_from_def)
  have c': "path_tokens p \<noteq> [] \<longrightarrow>
        walk_from s start (Some p) wp leaf
          = walk_loop (heap s) (start_node s start p) (path_tokens p) wp leaf"
    by (simp add: walk_from_def)
  have n: "walk_loop h cur [] wp leaf = Some (cur, leaf)"
    by simp
  have dot: "walk_loop h cur (''.'' # rest) wp leaf = walk_loop h cur rest wp leaf"
    by (rule walk_loop_dot)
  have dot': "walk_loop h cur [''.''] wp leaf = Some (cur, leaf)"
    by (simp add: NAME_MAX_def)
  have d: "h c = Some cn \<and> parent cn = Some q \<longrightarrow>
        walk_loop h (Some c) (''..'' # rest) wp leaf = walk_loop h (Some q) rest wp leaf
        \<and> walk_loop h (Some c) [''..''] wp leaf = Some (Some q, leaf)"
    by (simp add: NAME_MAX_def)
  have e: "root s = Some r \<and> heap s r = Some rn \<and> parent rn = None \<longrightarrow>
        walk_loop (heap s) (root s) (''..'' # rest) wp leaf = walk_loop (heap s) (root s) rest wp leaf
        \<and> walk_loop (heap s) (root s) [''..''] wp leaf = Some (root s, leaf)"
    by (simp add: NAME_MAX_def)
  have g: "rest \<noteq> [] \<and> seg \<noteq> ''.'' \<and> seg \<noteq> ''..'' \<and> 1 \<le> length seg \<and> length seg \<le> NAME_MAX
        \<and> dir_find h cur seg = Some (Some nxt) \<and> h nxt = Some nn \<and> ntype nn = N_DIR \<longrightarrow>
        walk_loop h cur (seg # rest) wp leaf = walk_loop h (Some nxt) rest wp leaf"
    by auto
  have f: "path_tokens p = pre @ tok # ys \<and> ys \<noteq> [] \<and> tok \<noteq> ''.'' \<and> tok \<noteq> ''..''
        \<and> walk_loop (heap s) (start_node s start p) (pre @ [''.'']) wp leaf = Some (Some d, l)
        \<and> (dir_find (heap s) (Some d) tok = Some None
             \<or> dir_find (heap s) (Some d) tok = Some (Some f) \<and> heap s f = Some fnode
                 \<and> ntype fnode = N_FILE)
        \<longrightarrow> walk_from s start (Some p) wp leaf = Some (None, leaf)"
  proof (intro impI, elim conjE)
    assume T: "path_tokens p = pre @ tok # ys" and M: "ys \<noteq> []"
      and N: "tok \<noteq> ''.''" "tok \<noteq> ''..''"
      and P: "walk_loop (heap s) (start_node s start p) (pre @ [''.'']) wp leaf = Some (Some d, l)"
      and D: "dir_find (heap s) (Some d) tok = Some None
             \<or> dir_find (heap s) (Some d) tok = Some (Some f) \<and> heap s f = Some fnode
                 \<and> ntype fnode = N_FILE"
    have "walk_loop (heap s) (start_node s start p) (pre @ tok # ys) wp leaf
            = walk_loop (heap s) (Some d) (tok # ys) wp leaf"
      using walk_loop_prefix [OF P, of "tok # ys"] by simp
    also have "\<dots> = Some (None, leaf)"
      using D M N by auto
    finally show "walk_from s start (Some p) wp leaf = Some (None, leaf)"
      using T by (simp add: walk_from_def)
  qed
  show ?thesis
    by (intro conjI a b c c' n dot dot' d e g f)
qed

theorem walk_from_segments_witness:
  "walk_from fs_example (Some 1) (Some []) False None = Some (Some 1, None)
   \<and> walk_from fs_example (Some 1) (Some ''/'') False None = Some (Some 0, None)
   \<and> path_tokens ''//'' = []
   \<and> walk_from fs_example (Some 1) (Some ''//'') False None = Some (Some 0, None)
   \<and> path_tokens ''./../docs/.'' = [''.'', ''..'', ''docs'', ''.'']
   \<and> walk_from fs_example (Some 1) (Some ''./../docs/.'') False None
       = walk_loop (heap fs_example) (Some 1) [''.'', ''..'', ''docs'', ''.''] False None
   \<and> walk_loop (heap fs_example) (Some 1) [''.'', ''..'', ''docs'', ''.''] False None
       = walk_loop (heap fs_example) (Some 1) [''..'', ''docs'', ''.''] False None
   \<and> walk_loop (heap fs_example) (Some 1) [''..'', ''docs'', ''.''] False None
       = walk_loop (heap fs_example) (Some 0) [''docs'', ''.''] False None
   \<and> dir_find (heap fs_example) (Some 0) ''docs'' = Some (Some 1)
   \<and> walk_loop (heap fs_example) (Some 0) [''docs'', ''.''] False None
       = walk_loop (heap fs_example) (Some 1) [''.''] False None
   \<and> walk_loop (heap fs_example) (Some 1) [''.''] False None = Some (Some 1, None)
   \<and> walk_from fs_example (Some 1) (Some ''./../docs/.'') False None = Some (Some 1, None)
   \<and> walk_from fs_example (Some 1) (Some ''..'') False None = Some (Some 0, None)
   \<and> walk_from fs_example (Some 1) (Some ''/..'') False None = Some (Some 0, None)
   \<and> walk_loop (heap fs_example) (Some 0) [''..'', ''docs'', ''.''] False None
       = walk_loop (heap fs_example) (Some 0) [''docs'', ''.''] False None
   \<and> walk_from fs_example (Some 1) (Some ''/../docs/.'') False None = Some (Some 1, None)
   \<and> path_tokens ''/docs/nothere/x'' = [''docs''] @ ''nothere'' # [''x'']
   \<and> dir_find (heap fs_example) (Some 1) ''nothere'' = Some None
   \<and> walk_from fs_example (Some 1) (Some ''/docs/nothere/x'') False None = Some (None, None)
   \<and> path_tokens ''/docs/ro/x'' = [''docs''] @ ''ro'' # [''x'']
   \<and> dir_find (heap fs_example) (Some 1) ''ro'' = Some (Some 3)
   \<and> walk_from fs_example (Some 1) (Some ''/docs/ro/x'') False None = Some (None, None)"
proof -
  note T = walk_from_segments [where s = fs_example and start = "Some 1" and wp = False
      and leaf = None and h = "heap fs_example" and c = 1 and q = 0
      and cn = "mk_node N_DIR ''docs'' (Some 0) 0 [3] [] 0"
      and r = 0 and rn = "mk_node N_DIR [] None 0 [1, 2, 4] [] 0"
      and seg = "''docs''" and nxt = 1 and nn = "mk_node N_DIR ''docs'' (Some 0) 0 [3] [] 0"
      and pre = "[''docs'']" and ys = "[''x'']" and d = 1 and l = None and f = 3
      and fnode = "mk_node N_FILE ''ro'' (Some 1) ATTR_READONLY [] [] 0"]
  have t1: "path_tokens ''//'' = []"
    "path_tokens ''./../docs/.'' = [''.'', ''..'', ''docs'', ''.'']"
    "path_tokens ''/docs/nothere/x'' = [''docs''] @ ''nothere'' # [''x'']"
    "path_tokens ''/docs/ro/x'' = [''docs''] @ ''ro'' # [''x'']"
    by (simp_all add: path_tokens_def)
  have t2: "dir_find (heap fs_example) (Some 0) ''docs'' = Some (Some 1)"
    "dir_find (heap fs_example) (Some 1) ''nothere'' = Some None"
    "dir_find (heap fs_example) (Some 1) ''ro'' = Some (Some 3)"
    by (simp_all add: ex_defs)
  have A: "walk_from fs_example (Some 1) (Some []) False None = Some (Some 1, None)
     \<and> walk_from fs_example (Some 1) (Some ''/'') False None = Some (Some 0, None)
     \<and> walk_from fs_example (Some 1) (Some ''./../docs/.'') False None
         = walk_loop (heap fs_example) (Some 1) [''.'', ''..'', ''docs'', ''.''] False None
     \<and> walk_loop (heap fs_example) (Some 1) [''.'', ''..'', ''docs'', ''.''] False None
         = walk_loop (heap fs_example) (Some 1) [''..'', ''docs'', ''.''] False None
     \<and> walk_loop (heap fs_example) (Some 1) [''.''] False None = Some (Some 1, None)"
    using T [where p = "''./../docs/.''" and cur = "Some 1" and rest = "[''..'', ''docs'', ''.'']"
        and tok = "''nothere''"] t1
    by (simp add: ex_defs)
  have B: "walk_from fs_example (Some 1) (Some ''//'') False None = Some (Some 0, None)
     \<and> walk_loop (heap fs_example) (Some 1) [''..'', ''docs'', ''.''] False None
         = walk_loop (heap fs_example) (Some 0) [''docs'', ''.''] False None
     \<and> walk_loop (heap fs_example) (Some 0) [''..'', ''docs'', ''.''] False None
         = walk_loop (heap fs_example) (Some 0) [''docs'', ''.''] False None
     \<and> walk_from fs_example (Some 1) (Some ''/docs/ro/x'') False None = Some (None, None)"
    using T [where p = "''//''" and cur = "Some 0" and rest = "[''docs'', ''.'']"
        and tok = "''ro''"]
      T [where p = "''/docs/ro/x''" and cur = "Some 0" and rest = "[''docs'', ''.'']"
        and tok = "''ro''"] t1
    by (simp add: ex_defs)
  have C: "walk_loop (heap fs_example) (Some 0) [''docs'', ''.''] False None
         = walk_loop (heap fs_example) (Some 1) [''.''] False None
     \<and> walk_from fs_example (Some 1) (Some ''/docs/nothere/x'') False None = Some (None, None)"
    using T [where p = "''/docs/nothere/x''" and cur = "Some 0" and rest = "[''.'']"
        and tok = "''nothere''"] t1
    by (simp add: ex_defs)
  have D: "walk_from fs_example (Some 1) (Some ''..'') False None = Some (Some 0, None)"
    using T [where p = "''..''" and cur = "Some 1" and rest = "[]" and tok = "''ro''"]
    by (simp add: ex_defs)
  have E: "walk_from fs_example (Some 1) (Some ''/..'') False None = Some (Some 0, None)"
    using T [where p = "''/..''" and cur = "Some 0" and rest = "[]" and tok = "''ro''"]
    by (simp add: ex_defs)
  have F: "walk_from fs_example (Some 1) (Some ''/../docs/.'') False None
             = walk_loop (heap fs_example) (Some 0) [''..'', ''docs'', ''.''] False None"
    using T [where p = "''/../docs/.''" and cur = "Some 0" and rest = "[]" and tok = "''ro''"]
    by (simp add: ex_defs)
  show ?thesis
    using t1 t2 A B C D E F by simp
qed

text \<open>
  C5 (as amended). With \<open>want_parent\<close> set, a final segment of 1 to 31 bytes other than
  \<open>.\<close> and \<open>..\<close> makes the resolver return the directory reached so far and copy the
  segment into the caller's leaf buffer, whether or not the directory holds an entry of
  that name; a final segment longer than \<open>NAME_MAX\<close> bytes makes it return \<open>NULL\<close>.
  A final \<open>.\<close> or \<open>..\<close> is not rejected: it is followed like any other \<open>.\<close> or \<open>..\<close>
  and the resolver returns the directory it then stands on, leaving the leaf buffer as
  the caller passed it.
\<close>

theorem walk_from_want_parent:
  assumes T: "path_tokens p = pre @ [seg]"
    and P: "walk_loop (heap s) (start_node s start p) (pre @ [''.'']) True (Some b)
              = Some (Some d, l)"
  shows "(seg \<noteq> ''.'' \<and> seg \<noteq> ''..'' \<and> 1 \<le> length seg \<and> length seg \<le> 31 \<longrightarrow>
            walk_from s start (Some p) True (Some b) = Some (Some d, Some seg))
       \<and> (length seg > NAME_MAX \<longrightarrow>
            walk_from s start (Some p) True (Some b) = Some (None, Some b))
       \<and> (seg = ''.'' \<longrightarrow> walk_from s start (Some p) True (Some b) = Some (Some d, Some b))
       \<and> (seg = ''..'' \<and> heap s d = Some dn \<longrightarrow>
            walk_from s start (Some p) True (Some b)
              = Some (case parent dn of None \<Rightarrow> Some d | Some q \<Rightarrow> Some q, Some b))"
proof -
  have W: "walk_from s start (Some p) True (Some b)
             = walk_loop (heap s) (Some d) [seg] True (Some b)"
    using walk_loop_prefix [OF P, of "[seg]"] T by (simp add: walk_from_def)
  show ?thesis
    unfolding W by (auto simp: NAME_MAX_def)
qed

theorem walk_from_want_parent_witness:
  "path_tokens ''/docs/new'' = [''docs''] @ [''new'']
   \<and> dir_find (heap fs_example) (Some 1) ''new'' = Some None
   \<and> walk_from fs_example (Some 0) (Some ''/docs/new'') True (Some []) = Some (Some 1, Some ''new'')
   \<and> dir_find (heap fs_example) (Some 1) ''ro'' = Some (Some 3)
   \<and> walk_from fs_example (Some 0) (Some ''/docs/ro'') True (Some []) = Some (Some 1, Some ''ro'')
   \<and> walk_from fs_example (Some 0) (Some ''/docs/a_name_that_is_longer_than_thirty_two_bytes'')
        True (Some []) = Some (None, Some [])
   \<and> walk_from fs_example (Some 0) (Some ''/docs/.'') True (Some []) = Some (Some 1, Some [])
   \<and> walk_from fs_example (Some 0) (Some ''/docs/..'') True (Some []) = Some (Some 0, Some [])"
  using
    walk_from_want_parent [where s = fs_example and start = "Some 0" and p = "''/docs/new''"
      and pre = "[''docs'']" and seg = "''new''" and b = "[]" and d = 1 and l = "Some []"]
    walk_from_want_parent [where s = fs_example and start = "Some 0" and p = "''/docs/ro''"
      and pre = "[''docs'']" and seg = "''ro''" and b = "[]" and d = 1 and l = "Some []"]
    walk_from_want_parent [where s = fs_example and start = "Some 0"
      and p = "''/docs/a_name_that_is_longer_than_thirty_two_bytes''"
      and pre = "[''docs'']" and seg = "''a_name_that_is_longer_than_thirty_two_bytes''"
      and b = "[]" and d = 1 and l = "Some []"]
    walk_from_want_parent [where s = fs_example and start = "Some 0" and p = "''/docs/.''"
      and pre = "[''docs'']" and seg = "''.''" and b = "[]" and d = 1 and l = "Some []"]
    walk_from_want_parent [where s = fs_example and start = "Some 0" and p = "''/docs/..''"
      and pre = "[''docs'']" and seg = "''..''" and b = "[]" and d = 1 and l = "Some []"
      and dn = "mk_node N_DIR ''docs'' (Some 0) 0 [3] [] 0"]
  by (simp add: ex_defs)

text \<open>
  C5 as stated fails: the resolver does not reject \<open>.\<close> and \<open>..\<close> as the final segment,
  and it accepts a final segment of 32 bytes.
\<close>

theorem walk_from_leaf_counterexample:
  "walk_from fs_example (Some 0) (Some ''/docs/.'') True (Some []) = Some (Some 1, Some [])
   \<and> walk_from fs_example (Some 0) (Some ''/docs/..'') True (Some []) = Some (Some 0, Some [])
   \<and> length ''name_of_exactly_thirty_two_bytes'' = 32
   \<and> walk_from fs_example (Some 0) (Some ''/docs/name_of_exactly_thirty_two_bytes'')
        True (Some []) = Some (Some 1, Some ''name_of_exactly_thirty_two_bytes'')"
  by (simp add: ex_defs)

section \<open>Facts about node removal and file creation\<close>

lemma free_tasks_file:
  "h a = Some n \<Longrightarrow> ntype n = N_FILE \<Longrightarrow> node_free h (Some a) = Some (h(a := None))"
  by (simp add: node_free_def free_tasks.simps)

lemma free_tasks_childless:
  "h a = Some n \<Longrightarrow> children n = [] \<Longrightarrow> node_free h (Some a) = Some (h(a := None))"
  by (simp add: node_free_def free_tasks.simps)

lemma walk_loop_leaf_some:
  "walk_loop h cur toks wp (Some b) = Some (w, l) \<Longrightarrow> l \<noteq> None"
proof (induction toks arbitrary: cur)
  case Nil
  then show ?case by auto
next
  case (Cons tok toks)
  then show ?case
    by (cases "toks = []") (auto split: option.splits if_splits)
qed

lemma walk_leaf_some: "walk s path wp (Some b) = Some (w, l) \<Longrightarrow> l \<noteq> None"
  by (auto simp: walk_def walk_from_def split: option.splits if_splits dest: walk_loop_leaf_some)

lemma walk_loop_leaf_shape:
  "walk_loop h cur toks True (Some []) = Some (w, Some leaf) \<Longrightarrow>
   leaf = [] \<or> (toks \<noteq> [] \<and> leaf = last toks \<and> leaf \<noteq> ''.'' \<and> leaf \<noteq> ''..''
                 \<and> length leaf \<le> NAME_MAX)"
proof (induction toks arbitrary: cur)
  case Nil
  then show ?case by auto
next
  case (Cons tok toks)
  then show ?case
    by (cases "toks = []") (auto split: option.splits if_splits)
qed

lemma bad_leaf_create:
  assumes W: "walk s (Some pth) True (Some []) = Some (w, Some leaf)"
    and B: "path_tokens pth = [] \<or> last (path_tokens pth) = ''.'' \<or> last (path_tokens pth) = ''..''
            \<or> length (last (path_tokens pth)) > NAME_MAX"
  shows "w = None \<or> leaf = []"
proof (cases "path_tokens pth = []")
  case True
  with W show ?thesis by (auto simp: walk_def walk_from_def)
next
  case False
  with W have L: "walk_loop (heap s) (start_node s (cwd s) pth) (path_tokens pth) True (Some [])
                    = Some (w, Some leaf)"
    by (simp add: walk_def walk_from_def)
  from B False consider "last (path_tokens pth) = ''.'' \<or> last (path_tokens pth) = ''..''"
    | "length (last (path_tokens pth)) > NAME_MAX" by blast
  then show ?thesis
  proof cases
    case 1
    with walk_loop_leaf_kept [OF L] show ?thesis by auto
  next
    case 2
    with walk_loop_too_long [OF L False] show ?thesis by auto
  qed
qed

lemma find_loop_none_live: "find_loop h cs nm = Some None \<Longrightarrow> c \<in> set cs \<Longrightarrow> h c \<noteq> None"
  by (induction cs) (auto split: option.splits if_splits)

lemma dir_find_none_live:
  "dir_find h (Some p) nm = Some None \<Longrightarrow> h p = Some pn \<Longrightarrow> ntype pn = N_DIR \<Longrightarrow>
   c \<in> set (children pn) \<Longrightarrow> h c \<noteq> None"
  by (auto simp: dir_find_def dest: find_loop_none_live)

lemma create_file_fail_early:
  assumes W: "walk s path True (Some []) = Some (w, Some leaf)"
  shows "w = None \<Longrightarrow> create_file clk m path s = Some (- 1, s)"
    and "w = Some p \<Longrightarrow> heap s p = Some pn \<Longrightarrow> ntype pn \<noteq> N_DIR \<Longrightarrow>
         create_file clk m path s = Some (- 1, s)"
    and "w = Some p \<Longrightarrow> heap s p = Some pn \<Longrightarrow> leaf = [] \<Longrightarrow>
         create_file clk m path s = Some (- 1, s)"
    and "w = Some p \<Longrightarrow> heap s p = Some pn \<Longrightarrow> dir_find (heap s) (Some p) leaf = Some (Some c) \<Longrightarrow>
         create_file clk m path s = Some (- 1, s)"
    and "w = Some p \<Longrightarrow> heap s p = Some pn \<Longrightarrow> is_readonly pn \<Longrightarrow>
         dir_find (heap s) (Some p) leaf = Some e \<Longrightarrow>
         create_file clk m path s = Some (- 1, s)"
  using W by (auto simp: create_file_def Let_def split: option.splits)

lemma create_file_attach:
  assumes W: "walk s path True (Some []) = Some (Some p, Some leaf)"
    and P: "heap s p = Some pn" "ntype pn = N_DIR" "\<not> is_readonly pn"
    and L: "leaf \<noteq> []" "leaf \<noteq> ''.''" "leaf \<noteq> ''..''" "length leaf \<le> NAME_MAX"
    and D: "dir_find (heap s) (Some p) leaf = Some None"
    and A: "heap s a = None"
  shows "create_file clk (Some a) path s =
           (if child_count pn \<ge> MAX_CHILDREN then Some (- 1, s)
            else Some (0, s\<lparr>heap := (heap s)
                   (a \<mapsto> \<lparr>ntype = N_FILE, name = leaf, parent = Some p, created = clk 0,
                            modified = clk 0, accessed = clk 0, attributes = ATTR_NONE,
                            children = [], data = [], fsize = 0\<rparr>,
                    p \<mapsto> pn\<lparr>children := children pn @ [a], modified := clk 2, accessed := clk 2\<rparr>)\<rparr>))"
proof -
  have ap: "a \<noteq> p" using A P by auto
  have ac: "a \<notin> set (children pn)"
    using dir_find_none_live [OF D P(1) P(2), of a] A by blast
  show ?thesis
  proof (cases "child_count pn \<ge> MAX_CHILDREN")
    case True
    then show ?thesis
      using W P L D A ap
      by (simp add: create_file_def node_new_def dir_add_def free_tasks_file fun_upd_idem)
  next
    case False
    then show ?thesis
      using W P L D A ap ac
      by (auto simp: create_file_def node_new_def dir_add_def upd_node_def Let_def stamp_def
          fun_upd_twist)
  qed
qed

lemma create_file_success_inv:
  assumes C: "create_file clk m path s = Some (0, s')"
    and W: "walk s path True (Some []) = Some (w, Some leaf)"
  shows "\<exists>p pn a. w = Some p \<and> heap s p = Some pn \<and> ntype pn = N_DIR \<and> \<not> is_readonly pn
            \<and> leaf \<noteq> [] \<and> leaf \<noteq> ''.'' \<and> leaf \<noteq> ''..'' \<and> length leaf \<le> NAME_MAX
            \<and> dir_find (heap s) (Some p) leaf = Some None
            \<and> m = Some a \<and> heap s a = None"
  using C W
  by (auto simp: create_file_def Let_def node_new_def split: option.splits if_splits)

lemma walk_leaf_shape:
  assumes "walk s path True (Some []) = Some (w, Some leaf)"
  shows "leaf = [] \<or> (leaf \<noteq> ''.'' \<and> leaf \<noteq> ''..'' \<and> length leaf \<le> NAME_MAX)"
proof (cases path)
  case None
  with assms show ?thesis by (simp add: walk_def walk_from_def)
next
  case (Some pth)
  show ?thesis
  proof (cases "path_tokens pth = []")
    case True
    with assms Some show ?thesis by (simp add: walk_def walk_from_def)
  next
    case False
    with assms Some have "walk_loop (heap s) (start_node s (cwd s) pth) (path_tokens pth) True
        (Some []) = Some (w, Some leaf)"
      by (simp add: walk_def walk_from_def)
    from walk_loop_leaf_shape [OF this] show ?thesis by blast
  qed
qed

lemmas op_defs = create_file_def node_new_def dir_add_def upd_node_def stamp_def is_readonly_def
  ATTR_READONLY_def ATTR_NONE_def MAX_CHILDREN_def child_count_def

text \<open>
  What \<open>create_file\<close> does, given the result of resolving the path with \<open>want_parent\<close> set
  and a zeroed leaf buffer. The call returns \<open>-1\<close> and leaves the store as it was when
  the resolved parent is \<open>NULL\<close>, when it is not a directory, when it is read-only, when
  \<open>dir_find\<close> finds an entry of the leaf name in it, and when the last segment of the path
  is missing, is \<open>.\<close> or \<open>..\<close>, or is longer than \<open>NAME_MAX\<close> bytes.
  When the call returns \<open>0\<close>, a new file node of the leaf name, with the parent as its
  parent and the first reading of the clock as its times, has been appended to the
  parent's children, and the parent's modified and accessed times are the last (third)
  reading of the clock; nothing else has changed. With a writable parent directory that
  has room, a leaf name not yet used and a fresh node from \<open>calloc\<close>, the call does
  return \<open>0\<close>.
\<close>

lemma create_file_outcomes:
  assumes W: "walk s path True (Some []) = Some (w, Some leaf)"
  shows
    "(w = None \<longrightarrow> create_file clk m path s = Some (- 1, s))
   \<and> (w = Some p \<and> heap s p = Some pn \<and> ntype pn \<noteq> N_DIR \<longrightarrow>
        create_file clk m path s = Some (- 1, s))
   \<and> (w = Some p \<and> heap s p = Some pn \<and> is_readonly pn
        \<and> dir_find (heap s) (Some p) leaf = Some e \<longrightarrow>
        create_file clk m path s = Some (- 1, s))
   \<and> (w = Some p \<and> heap s p = Some pn \<and> dir_find (heap s) (Some p) leaf = Some (Some c) \<longrightarrow>
        create_file clk m path s = Some (- 1, s))
   \<and> (path = Some pth \<and> (w = None \<or> w = Some p \<and> heap s p = Some pn)
        \<and> (path_tokens pth = [] \<or> last (path_tokens pth) = ''.''
             \<or> last (path_tokens pth) = ''..'' \<or> length (last (path_tokens pth)) > NAME_MAX) \<longrightarrow>
        create_file clk m path s = Some (- 1, s))
   \<and> (create_file clk m path s = Some (0, s') \<longrightarrow>
        (\<exists>q qn a. w = Some q \<and> heap s q = Some qn \<and> m = Some a \<and> heap s a = None
           \<and> s' = s\<lparr>heap := (heap s)
                  (a \<mapsto> \<lparr>ntype = N_FILE, name = leaf, parent = Some q, created = clk 0,
                          modified = clk 0, accessed = clk 0, attributes = ATTR_NONE,
                          children = [], data = [], fsize = 0\<rparr>,
                   q \<mapsto> qn\<lparr>children := children qn @ [a], modified := clk 2,
                            accessed := clk 2\<rparr>)\<rparr>))
   \<and> (w = Some p \<and> heap s p = Some pn \<and> ntype pn = N_DIR \<and> \<not> is_readonly pn
        \<and> child_count pn < MAX_CHILDREN \<and> leaf \<noteq> []
        \<and> dir_find (heap s) (Some p) leaf = Some None \<and> m = Some a \<and> heap s a = None \<longrightarrow>
        (\<exists>s''. create_file clk m path s = Some (0, s'')))"
proof -
  note E = create_file_fail_early [OF W]
  have bad: "create_file clk m path s = Some (- 1, s)"
    if "path = Some pth" "w = None \<or> w = Some p \<and> heap s p = Some pn"
      "path_tokens pth = [] \<or> last (path_tokens pth) = ''.''
             \<or> last (path_tokens pth) = ''..'' \<or> length (last (path_tokens pth)) > NAME_MAX"
  proof -
    from bad_leaf_create [of s pth w leaf] W that have "w = None \<or> leaf = []" by simp
    with that(2) E(1) E(3) show ?thesis by blast
  qed
  have good: "\<exists>q qn a. w = Some q \<and> heap s q = Some qn \<and> m = Some a \<and> heap s a = None
           \<and> s' = s\<lparr>heap := (heap s)
                  (a \<mapsto> \<lparr>ntype = N_FILE, name = leaf, parent = Some q, created = clk 0,
                          modified = clk 0, accessed = clk 0, attributes = ATTR_NONE,
                          children = [], data = [], fsize = 0\<rparr>,
                   q \<mapsto> qn\<lparr>children := children qn @ [a], modified := clk 2,
                            accessed := clk 2\<rparr>)\<rparr>"
    if C: "create_file clk m path s = Some (0, s')"
  proof -
    from create_file_success_inv [OF C W] obtain q qn a where
      I: "w = Some q" "heap s q = Some qn" "ntype qn = N_DIR" "\<not> is_readonly qn"
         "leaf \<noteq> []" "leaf \<noteq> ''.''" "leaf \<noteq> ''..''" "length leaf \<le> NAME_MAX"
         "dir_find (heap s) (Some q) leaf = Some None" "m = Some a" "heap s a = None"
      by blast
    have "create_file clk (Some a) path s =
           (if child_count qn \<ge> MAX_CHILDREN then Some (- 1, s)
            else Some (0, s\<lparr>heap := (heap s)
                   (a \<mapsto> \<lparr>ntype = N_FILE, name = leaf, parent = Some q, created = clk 0,
                            modified = clk 0, accessed = clk 0, attributes = ATTR_NONE,
                            children = [], data = [], fsize = 0\<rparr>,
                    q \<mapsto> qn\<lparr>children := children qn @ [a], modified := clk 2, accessed := clk 2\<rparr>)\<rparr>))"
      using create_file_attach [of s path q leaf qn a clk] W I by simp
    with C I show ?thesis
      by (auto split: if_splits)
  qed
  have total: "\<exists>s''. create_file clk m path s = Some (0, s'')"
    if "w = Some p" "heap s p = Some pn" "ntype pn = N_DIR" "\<not> is_readonly pn"
      "child_count pn < MAX_CHILDREN" "leaf \<noteq> []"
      "dir_find (heap s) (Some p) leaf = Some None" "m = Some a" "heap s a = None"
    using create_file_attach [of s path p leaf pn a clk] walk_leaf_shape [OF W] W that
    by auto
  have c1: "w = None \<longrightarrow> create_file clk m path s = Some (- 1, s)"
    using E(1) by blast
  have c2: "w = Some p \<and> heap s p = Some pn \<and> ntype pn \<noteq> N_DIR \<longrightarrow>
        create_file clk m path s = Some (- 1, s)"
    using E(2) by blast
  have c3: "w = Some p \<and> heap s p = Some pn \<and> is_readonly pn
        \<and> dir_find (heap s) (Some p) leaf = Some e \<longrightarrow>
        create_file clk m path s = Some (- 1, s)"
    using E(5) by blast
  have c4: "w = Some p \<and> heap s p = Some pn \<and> dir_find (heap s) (Some p) leaf = Some (Some c) \<longrightarrow>
        create_file clk m path s = Some (- 1, s)"
    using E(4) by blast
  have c5: "path = Some pth \<and> (w = None \<or> w = Some p \<and> heap s p = Some pn)
        \<and> (path_tokens pth = [] \<or> last (path_tokens pth) = ''.''
             \<or> last (path_tokens pth) = ''..'' \<or> length (last (path_tokens pth)) > NAME_MAX) \<longrightarrow>
        create_file clk m path s = Some (- 1, s)"
    using bad by (intro impI) (elim conjE, assumption+)
  have c6: "create_file clk m path s = Some (0, s') \<longrightarrow>
        (\<exists>q qn a. w = Some q \<and> heap s q = Some qn \<and> m = Some a \<and> heap s a = None
           \<and> s' = s\<lparr>heap := (heap s)
                  (a \<mapsto> \<lparr>ntype = N_FILE, name = leaf, parent = Some q, created = clk 0,
                          modified = clk 0, accessed = clk 0, attributes = ATTR_NONE,
                          children = [], data = [], fsize = 0\<rparr>,
                   q \<mapsto> qn\<lparr>children := children qn @ [a], modified := clk 2,
                            accessed := clk 2\<rparr>)\<rparr>)"
    using good by (intro impI)
  have c7: "w = Some p \<and> heap s p = Some pn \<and> ntype pn = N_DIR \<and> \<not> is_readonly pn
        \<and> child_count pn < MAX_CHILDREN \<and> leaf \<noteq> []
        \<and> dir_find (heap s) (Some p) leaf = Some None \<and> m = Some a \<and> heap s a = None \<longrightarrow>
        (\<exists>s''. create_file clk m path s = Some (0, s''))"
    using total by (intro impI) (elim conjE, assumption+)
  show ?thesis
    by (intro conjI c1 c2 c3 c4 c5 c6 c7)
qed

lemma create_file_outcomes_example:
  "walk fs_example (Some ''/nodir/x'') True (Some []) = Some (None, Some [])
   \<and> create_file (ticks 50) (Some 9) (Some ''/nodir/x'') fs_example = Some (- 1, fs_example)
   \<and> walk (fs_example\<lparr>cwd := Some 2\<rparr>) (Some ''x'') True (Some []) = Some (Some 2, Some ''x'')
   \<and> create_file (ticks 50) (Some 9) (Some ''x'') (fs_example\<lparr>cwd := Some 2\<rparr>)
       = Some (- 1, fs_example\<lparr>cwd := Some 2\<rparr>)
   \<and> walk fs_example (Some ''/locked/x'') True (Some []) = Some (Some 4, Some ''x'')
   \<and> create_file (ticks 50) (Some 9) (Some ''/locked/x'') fs_example = Some (- 1, fs_example)
   \<and> walk fs_example (Some ''/docs/ro'') True (Some []) = Some (Some 1, Some ''ro'')
   \<and> dir_find (heap fs_example) (Some 1) ''ro'' = Some (Some 3)
   \<and> create_file (ticks 50) (Some 9) (Some ''/docs/ro'') fs_example = Some (- 1, fs_example)
   \<and> create_file (ticks 50) (Some 9) (Some ''/'') fs_example = Some (- 1, fs_example)
   \<and> create_file (ticks 50) (Some 9) (Some ''/docs/.'') fs_example = Some (- 1, fs_example)
   \<and> create_file (ticks 50) (Some 9) (Some ''/docs/..'') fs_example = Some (- 1, fs_example)
   \<and> create_file (ticks 50) (Some 9) (Some ''/docs/a_name_that_is_longer_than_thirty_two_bytes'')
        fs_example = Some (- 1, fs_example)
   \<and> walk fs_example (Some ''/docs/new'') True (Some []) = Some (Some 1, Some ''new'')
   \<and> create_file (ticks 50) (Some 9) (Some ''/docs/new'') fs_example
       = Some (0, fs_example\<lparr>heap := (heap fs_example)
            (9 \<mapsto> \<lparr>ntype = N_FILE, name = ''new'', parent = Some 1, created = 50,
                    modified = 50, accessed = 50, attributes = ATTR_NONE,
                    children = [], data = [], fsize = 0\<rparr>,
             1 \<mapsto> \<lparr>ntype = N_DIR, name = ''docs'', parent = Some 0, created = 0,
                    modified = 52, accessed = 52, attributes = 0,
                    children = [3, 9], data = [], fsize = 0\<rparr>)\<rparr>)"
proof -
  have w1: "walk fs_example (Some ''/nodir/x'') True (Some []) = Some (None, Some [])"
    by (simp add: ex_defs)
  have w2: "walk (fs_example\<lparr>cwd := Some 2\<rparr>) (Some ''x'') True (Some []) = Some (Some 2, Some ''x'')"
    by (simp add: ex_defs)
  have w3: "walk fs_example (Some ''/locked/x'') True (Some []) = Some (Some 4, Some ''x'')"
    by (simp add: ex_defs)
  have w4: "walk fs_example (Some ''/docs/ro'') True (Some []) = Some (Some 1, Some ''ro'')"
    by (simp add: ex_defs)
  have w5: "walk fs_example (Some ''/'') True (Some []) = Some (Some 0, Some [])"
    by (simp add: ex_defs)
  have w6: "walk fs_example (Some ''/docs/.'') True (Some []) = Some (Some 1, Some [])"
    by (simp add: ex_defs)
  have w7: "walk fs_example (Some ''/docs/..'') True (Some []) = Some (Some 0, Some [])"
    by (simp add: ex_defs)
  have w8: "walk fs_example (Some ''/docs/a_name_that_is_longer_than_thirty_two_bytes'') True
              (Some []) = Some (None, Some [])"
    by (simp add: ex_defs)
  have w9: "walk fs_example (Some ''/docs/new'') True (Some []) = Some (Some 1, Some ''new'')"
    by (simp add: ex_defs)
  have d4: "dir_find (heap fs_example) (Some 1) ''ro'' = Some (Some 3)"
    by (simp add: ex_defs)
  have c9: "create_file (ticks 50) (Some 9) (Some ''/docs/new'') fs_example
       = Some (0, fs_example\<lparr>heap := (heap fs_example)
            (9 \<mapsto> \<lparr>ntype = N_FILE, name = ''new'', parent = Some 1, created = 50,
                    modified = 50, accessed = 50, attributes = ATTR_NONE,
                    children = [], data = [], fsize = 0\<rparr>,
             1 \<mapsto> \<lparr>ntype = N_DIR, name = ''docs'', parent = Some 0, created = 0,
                    modified = 52, accessed = 52, attributes = 0,
                    children = [3, 9], data = [], fsize = 0\<rparr>)\<rparr>)"
    using create_file_outcomes [OF w9, where clk = "ticks 50" and m = "Some 9" and p = 1
        and pn = "mk_node N_DIR ''docs'' (Some 0) 0 [3] [] 0" and a = 9]
    by (auto simp: ex_defs op_defs ticks_def)
  show ?thesis
    using w1 w2 w3 w4 w9 d4 c9
      create_file_outcomes [OF w1, where clk = "ticks 50" and m = "Some 9"]
      create_file_outcomes [OF w2, where clk = "ticks 50" and m = "Some 9" and p = 2
        and pn = "mk_node N_FILE ''f'' (Some 0) 0 [] ab_block 2"]
      create_file_outcomes [OF w3, where clk = "ticks 50" and m = "Some 9" and p = 4
        and pn = "mk_node N_DIR ''locked'' (Some 0) ATTR_READONLY [] [] 0" and e = None]
      create_file_outcomes [OF w4, where clk = "ticks 50" and m = "Some 9" and p = 1
        and pn = "mk_node N_DIR ''docs'' (Some 0) 0 [3] [] 0" and c = 3]
      create_file_outcomes [OF w5, where clk = "ticks 50" and m = "Some 9" and p = 0 and pth = "''/''"
        and pn = "mk_node N_DIR [] None 0 [1, 2, 4] [] 0"]
      create_file_outcomes [OF w6, where clk = "ticks 50" and m = "Some 9" and p = 1
        and pth = "''/docs/.''" and pn = "mk_node N_DIR ''docs'' (Some 0) 0 [3] [] 0"]
      create_file_outcomes [OF w7, where clk = "ticks 50" and m = "Some 9" and p = 0
        and pth = "''/docs/..''" and pn = "mk_node N_DIR [] None 0 [1, 2, 4] [] 0"]
      create_file_outcomes [OF w8, where clk = "ticks 50" and m = "Some 9"
        and pth = "''/docs/a_name_that_is_longer_than_thirty_two_bytes''"]
    by (simp add: ex_defs is_readonly_def ATTR_READONLY_def)
qed

section \<open>Claims about file creation\<close>

text \<open>
  C6 fails on the code. The name-length bound is 31 bytes: \<open>fs.h\<close> documents
  \<open>NAME_MAX 32\<close> as 31 characters and the terminator. The length tests of \<open>walk_from\<close>
  and of \<open>create_file\<close> compare with \<open>NAME_MAX\<close> itself, so a leaf of 32 bytes passes both:
  \<open>create_file("/docs/name_of_exactly_thirty_two_bytes")\<close> returns \<open>0\<close> and attaches a file
  of that 32-byte name to \<open>/docs\<close>, instead of returning \<open>-1\<close>.
\<close>

theorem create_file_accepts_32_byte_leaf:
  "length ''name_of_exactly_thirty_two_bytes'' = 32
   \<and> create_file (ticks 50) (Some 9) (Some ''/docs/name_of_exactly_thirty_two_bytes'') fs_example
       = Some (0, fs_example\<lparr>heap := (heap fs_example)
            (9 \<mapsto> \<lparr>ntype = N_FILE, name = ''name_of_exactly_thirty_two_bytes'',
                    parent = Some 1, created = 50, modified = 50, accessed = 50,
                    attributes = ATTR_NONE, children = [], data = [], fsize = 0\<rparr>,
             1 \<mapsto> \<lparr>ntype = N_DIR, name = ''docs'', parent = Some 0, created = 0,
                    modified = 52, accessed = 52, attributes = 0,
                    children = [3, 9], data = [], fsize = 0\<rparr>)\<rparr>)"
  by (simp add: ex_defs op_defs ticks_def)

section \<open>Facts about the descriptor table\<close>

lemma fs_open_readonly:
  assumes "walk s path False None = Some (Some n, l)" "heap s n = Some nn" "ntype nn = N_FILE"
    "is_readonly nn" "fl = O_WRONLY \<or> fl = O_RDWR"
  shows "fs_open now path fl s = Some (- 1, s)"
  using assms by (auto simp: fs_open_def O_WRONLY_def O_RDWR_def)

lemma fs_open_full:
  assumes "walk s path False None = Some (w, l)" "w = None \<or> w = Some n \<and> heap s n = Some nn"
    "\<forall>i<MAX_OPEN_FILES. in_use (fd_table s i)"
  shows "fs_open now path fl s = Some (- 1, s)"
proof -
  have "find (\<lambda>i. \<not> in_use (fd_table s i)) [0..<MAX_OPEN_FILES] = None"
    using assms(3) by (simp add: find_None_iff)
  with assms(1,2) show ?thesis
    by (auto simp: fs_open_def)
qed

lemma fs_open_success:
  assumes "fs_open now path fl s = Some (r, s')" "0 \<le> r"
  shows "\<exists>n nn l. walk s path False None = Some (Some n, l) \<and> heap s n = Some nn
           \<and> ntype nn = N_FILE
           \<and> nat r < MAX_OPEN_FILES \<and> \<not> in_use (fd_table s (nat r))
           \<and> (\<forall>j<nat r. in_use (fd_table s j))
           \<and> s' = s\<lparr>fd_table := (fd_table s)
                        (nat r := \<lparr>fd_node = Some n, offset = 0, flags = fl, in_use = True\<rparr>),
                     heap := (heap s)(n \<mapsto> nn\<lparr>accessed := now\<rparr>)\<rparr>"
  using assms
  by (auto simp: fs_open_def find_Some_iff split: option.splits if_splits)

lemma fs_open_total:
  assumes "walk s path False None = Some (Some n, l)" "heap s n = Some nn" "ntype nn = N_FILE"
    "\<not> is_readonly nn" "i < MAX_OPEN_FILES" "\<not> in_use (fd_table s i)"
  shows "\<exists>r s'. fs_open now path fl s = Some (r, s') \<and> 0 \<le> r \<and> r \<le> int i"
proof -
  have "i \<in> set [0..<MAX_OPEN_FILES]" using assms(5) by simp
  with assms(6) obtain j where
    J: "find (\<lambda>i. \<not> in_use (fd_table s i)) [0..<MAX_OPEN_FILES] = Some j"
    by (cases "find (\<lambda>i. \<not> in_use (fd_table s i)) [0..<MAX_OPEN_FILES]")
      (auto simp: find_None_iff)
  have "j \<le> i"
  proof (rule ccontr)
    assume "\<not> j \<le> i"
    with J assms(5,6) show False
      by (auto simp: find_Some_iff)
  qed
  with J assms(1-4) show ?thesis
    by (simp add: fs_open_def)
qed

section \<open>Claims about the descriptor table\<close>

text \<open>
  C8. When the path resolves to a file that carries the read-only attribute and the
  mode is \<open>O_WRONLY\<close> or \<open>O_RDWR\<close>, \<open>fs_open\<close> returns \<open>-1\<close> and the store, the descriptor
  table included, is unchanged. When \<open>fs_open\<close> returns a handle, the handle is the index
  of the first slot that was not in use, that slot now holds the resolved file with
  offset 0 and the given mode, and the file's accessed time is the current time; with
  a writable file and a slot not in use, \<open>fs_open\<close> does return a handle. When all
  \<open>MAX_OPEN_FILES = 32\<close> slots are in use, \<open>fs_open\<close> returns \<open>-1\<close> and changes nothing.
\<close>

theorem fs_open_outcomes:
  "(walk s path False None = Some (Some n, l) \<and> heap s n = Some nn \<and> ntype nn = N_FILE
      \<and> is_readonly nn \<and> (fl = O_WRONLY \<or> fl = O_RDWR) \<longrightarrow>
      fs_open now path fl s = Some (- 1, s))
   \<and> (fs_open now path fl s = Some (r, s') \<and> 0 \<le> r \<longrightarrow>
        (\<exists>f fnode lf. walk s path False None = Some (Some f, lf) \<and> heap s f = Some fnode
           \<and> ntype fnode = N_FILE
           \<and> nat r < MAX_OPEN_FILES \<and> \<not> in_use (fd_table s (nat r))
           \<and> (\<forall>j<nat r. in_use (fd_table s j))
           \<and> s' = s\<lparr>fd_table := (fd_table s)
                        (nat r := \<lparr>fd_node = Some f, offset = 0, flags = fl, in_use = True\<rparr>),
                     heap := (heap s)(f \<mapsto> fnode\<lparr>accessed := now\<rparr>)\<rparr>))
   \<and> (walk s path False None = Some (Some n, l) \<and> heap s n = Some nn \<and> ntype nn = N_FILE
        \<and> \<not> is_readonly nn \<and> i < MAX_OPEN_FILES \<and> \<not> in_use (fd_table s i) \<longrightarrow>
        (\<exists>h t. fs_open now path fl s = Some (h, t) \<and> 0 \<le> h \<and> h \<le> int i))
   \<and> (walk s path False None = Some (w, l) \<and> (w = None \<or> w = Some n \<and> heap s n = Some nn)
        \<and> (\<forall>i<MAX_OPEN_FILES. in_use (fd_table s i)) \<longrightarrow>
        fs_open now path fl s = Some (- 1, s))"
proof (intro conjI impI)
  assume "walk s path False None = Some (Some n, l) \<and> heap s n = Some nn \<and> ntype nn = N_FILE
      \<and> is_readonly nn \<and> (fl = O_WRONLY \<or> fl = O_RDWR)"
  then show "fs_open now path fl s = Some (- 1, s)"
    using fs_open_readonly by blast
next
  assume "fs_open now path fl s = Some (r, s') \<and> 0 \<le> r"
  then show "\<exists>f fnode lf. walk s path False None = Some (Some f, lf) \<and> heap s f = Some fnode
           \<and> ntype fnode = N_FILE
           \<and> nat r < MAX_OPEN_FILES \<and> \<not> in_use (fd_table s (nat r))
           \<and> (\<forall>j<nat r. in_use (fd_table s j))
           \<and> s' = s\<lparr>fd_table := (fd_table s)
                        (nat r := \<lparr>fd_node = Some f, offset = 0, flags = fl, in_use = True\<rparr>),
                     heap := (heap s)(f \<mapsto> fnode\<lparr>accessed := now\<rparr>)\<rparr>"
    using fs_open_success [of now path fl s r s'] by blast
next
  assume "walk s path False None = Some (Some n, l) \<and> heap s n = Some nn \<and> ntype nn = N_FILE
        \<and> \<not> is_readonly nn \<and> i < MAX_OPEN_FILES \<and> \<not> in_use (fd_table s i)"
  then show "\<exists>h t. fs_open now path fl s = Some (h, t) \<and> 0 \<le> h \<and> h \<le> int i"
    using fs_open_total [of s path n l nn i now fl] by blast
next
  assume "walk s path False None = Some (w, l) \<and> (w = None \<or> w = Some n \<and> heap s n = Some nn)
        \<and> (\<forall>i<MAX_OPEN_FILES. in_use (fd_table s i))"
  then show "fs_open now path fl s = Some (- 1, s)"
    using fs_open_full [of s path w l n nn now fl] by blast
qed

theorem fs_open_outcomes_witness:
  "walk fs_example (Some ''/docs/ro'') False None = Some (Some 3, None)
   \<and> is_readonly (mk_node N_FILE ''ro'' (Some 1) ATTR_READONLY [] [] 0)
   \<and> fs_open 70 (Some ''/docs/ro'') O_WRONLY fs_example = Some (- 1, fs_example)
   \<and> fs_open 70 (Some ''/docs/ro'') O_RDWR fs_example = Some (- 1, fs_example)
   \<and> fs_open 70 (Some ''/f'') O_RDWR fs_two_open
       = Some (2, fs_two_open\<lparr>fd_table := (fd_table fs_two_open)
                    (2 := \<lparr>fd_node = Some 2, offset = 0, flags = O_RDWR, in_use = True\<rparr>),
                  heap := (heap fs_two_open)
                    (2 \<mapsto> (mk_node N_FILE ''f'' (Some 0) 0 [] ab_block 2)\<lparr>accessed := 70\<rparr>)\<rparr>)
   \<and> in_use (fd_table fs_two_open 0) \<and> in_use (fd_table fs_two_open 1)
   \<and> \<not> in_use (fd_table fs_two_open 2)
   \<and> (\<exists>h t. fs_open 70 (Some ''/f'') O_RDWR fs_two_open = Some (h, t) \<and> 0 \<le> h \<and> h \<le> 2)
   \<and> list_all (\<lambda>i. in_use (fd_table fs_full i)) [0..<MAX_OPEN_FILES]
   \<and> fs_open 70 (Some ''/f'') O_RDONLY fs_full = Some (- 1, fs_full)"
proof -
  have w1: "walk fs_example (Some ''/docs/ro'') False None = Some (Some 3, None)"
    by (simp add: ex_defs)
  have w2: "walk fs_full (Some ''/f'') False None = Some (Some 2, None)"
    by (simp add: ex_defs fs_full_def)
  have o: "fs_open 70 (Some ''/f'') O_RDWR fs_two_open = Some (2, fs_two_open\<lparr>fd_table := (fd_table fs_two_open)
                    (2 := \<lparr>fd_node = Some 2, offset = 0, flags = O_RDWR, in_use = True\<rparr>),
                  heap := (heap fs_two_open)
                    (2 \<mapsto> (mk_node N_FILE ''f'' (Some 0) 0 [] ab_block 2)\<lparr>accessed := 70\<rparr>)\<rparr>)"
  proof -
    have "find (\<lambda>i. \<not> in_use (fd_table fs_two_open i)) [0..<MAX_OPEN_FILES] = Some 2"
      by (auto simp: find_Some_iff fs_two_open_def no_fd_def MAX_OPEN_FILES_def
          intro!: exI [of _ 2])
    then show ?thesis
      by (simp add: ex_defs fs_two_open_def fs_open_def is_readonly_def ATTR_READONLY_def)
  qed
  show ?thesis
    using w1 o
      fs_open_outcomes [where s = fs_example and path = "Some ''/docs/ro''" and n = 3 and l = None
        and nn = "mk_node N_FILE ''ro'' (Some 1) ATTR_READONLY [] [] 0" and fl = O_WRONLY
        and now = 70]
      fs_open_outcomes [where s = fs_example and path = "Some ''/docs/ro''" and n = 3 and l = None
        and nn = "mk_node N_FILE ''ro'' (Some 1) ATTR_READONLY [] [] 0" and fl = O_RDWR
        and now = 70]
      fs_open_outcomes [where s = fs_two_open and path = "Some ''/f''" and fl = O_RDWR
        and now = 70 and r = 2]
      fs_open_outcomes [where s = fs_full and path = "Some ''/f''" and n = 2 and l = None
        and w = "Some 2"
        and nn = "mk_node N_FILE ''f'' (Some 0) 0 [] ab_block 2" and fl = O_RDONLY
        and now = 70, OF ]
      w2
    by (simp add: ex_defs fs_full_def fs_two_open_def is_readonly_def ATTR_READONLY_def
        list_all_iff)
qed

text \<open>
  C9 fails on the code. \<open>fs_read_fd\<close> tests \<open>!(flags & O_RDONLY) && !(flags & O_RDWR)\<close>
  with \<open>O_RDONLY = 1\<close>, \<open>O_WRONLY = 2\<close>, \<open>O_RDWR = 3\<close>, so a descriptor opened
  \<open>O_WRONLY\<close> passes the test (\<open>2 & 3\<close> is not 0): after \<open>fs_open("/f", O_WRONLY)\<close> returned
  handle 0, \<open>fs_read_fd(0, buf, 2)\<close> returns 2 with the two bytes of the file instead of
  \<open>-1\<close>.
\<close>

theorem fs_read_fd_write_only_descriptor:
  "flags (fd_table fs_wronly 0) = O_WRONLY
   \<and> fs_read_fd 71 0 True 2 fs_wronly
       = Some ((2, [65, 66]),
               fs_wronly\<lparr>fd_table := (fd_table fs_wronly)
                           (0 := \<lparr>fd_node = Some 2, offset = 2, flags = O_WRONLY, in_use = True\<rparr>),
                         heap := (heap fs_wronly)
                           (2 \<mapsto> (mk_node N_FILE ''f'' (Some 0) 0 [] ab_block 2)
                                    \<lparr>accessed := 71\<rparr>)\<rparr>)"
  by (simp add: fs_wronly_def fs_example_def mk_node_def ab_block_def fs_read_fd_def fd_ok_def
      MAX_OPEN_FILES_def O_WRONLY_def O_RDONLY_def O_RDWR_def peek_def to_ssize_def
      SIZE_MOD_def numeral_2_eq_2 [symmetric])

text \<open>The store \<open>fs_wronly\<close> is what \<open>fs_open\<close> leaves.\<close>

lemma fs_open_write_only: "fs_open 70 (Some ''/f'') O_WRONLY fs_example = Some (0, fs_wronly)"
proof -
  have "find (\<lambda>i. \<not> in_use (fd_table fs_example i)) [0..<MAX_OPEN_FILES] = Some 0"
    by (auto simp: find_Some_iff fs_example_def no_fd_def MAX_OPEN_FILES_def intro!: exI [of _ 0])
  then show ?thesis
    by (simp add: ex_defs fs_wronly_def fs_open_def is_readonly_def ATTR_READONLY_def)
qed

section \<open>Claims about rename\<close>

text \<open>
  C3. When the source of \<open>rename_file\<close> resolves to a node other than the root (whose
  parent pointer, if any, points to a live node) and \<open>dir_find\<close> finds an entry of the
  new leaf name in the resolved destination directory, the call returns \<open>-1\<close> and the
  whole store is unchanged: the source's parent directory and the destination directory
  keep their children, in the same order, and the source keeps its name and parent.
\<close>

theorem rename_collision:
  assumes "walk s (Some old_path) False None = Some (Some n, l)"
    and "Some n \<noteq> root s"
    and "heap s n = Some nn"
    and "parent nn = None \<or> parent nn = Some q \<and> heap s q = Some qn"
    and "walk s (Some new_path) True (Some []) = Some (Some np, Some leaf)"
    and "dir_find (heap s) (Some np) leaf = Some (Some c)"
  shows "rename_file clk (Some old_path) (Some new_path) s = Some (- 1, s)"
proof -
  from assms(6) obtain npn where "heap s np = Some npn"
    by (auto simp: dir_find_def split: option.splits)
  with assms show ?thesis
    by (auto simp: rename_file_def Let_def split: option.splits bool.splits)
qed

theorem rename_collision_witness:
  "walk fs_example (Some ''/f'') False None = Some (Some 2, None)
   \<and> Some 2 \<noteq> root fs_example
   \<and> walk fs_example (Some ''/docs/ro'') True (Some []) = Some (Some 1, Some ''ro'')
   \<and> dir_find (heap fs_example) (Some 1) ''ro'' = Some (Some 3)
   \<and> rename_file (ticks 80) (Some ''/f'') (Some ''/docs/ro'') fs_example = Some (- 1, fs_example)
   \<and> walk fs_example (Some ''/docs'') True (Some []) = Some (Some 0, Some ''docs'')
   \<and> dir_find (heap fs_example) (Some 0) ''docs'' = Some (Some 1)
   \<and> rename_file (ticks 80) (Some ''/f'') (Some ''/docs'') fs_example = Some (- 1, fs_example)"
proof -
  have w1: "walk fs_example (Some ''/f'') False None = Some (Some 2, None)"
    by (simp add: ex_defs)
  have r: "Some 2 \<noteq> root fs_example"
    by (simp add: ex_defs)
  have h: "heap fs_example 2 = Some (mk_node N_FILE ''f'' (Some 0) 0 [] ab_block 2)"
    by (simp add: fs_example_def)
  have p: "parent (mk_node N_FILE ''f'' (Some 0) 0 [] ab_block 2) = None
           \<or> parent (mk_node N_FILE ''f'' (Some 0) 0 [] ab_block 2) = Some 0
              \<and> heap fs_example 0 = Some (mk_node N_DIR [] None 0 [1, 2, 4] [] 0)"
    by (simp add: ex_defs)
  have w2: "walk fs_example (Some ''/docs/ro'') True (Some []) = Some (Some 1, Some ''ro'')"
    by (simp add: ex_defs)
  have d2: "dir_find (heap fs_example) (Some 1) ''ro'' = Some (Some 3)"
    by (simp add: ex_defs)
  have w3: "walk fs_example (Some ''/docs'') True (Some []) = Some (Some 0, Some ''docs'')"
    by (simp add: ex_defs)
  have d3: "dir_find (heap fs_example) (Some 0) ''docs'' = Some (Some 1)"
    by (simp add: ex_defs)
  show ?thesis
    using w1 r w2 d2 w3 d3
      rename_collision [OF w1 r h p w2 d2, of "ticks 80"]
      rename_collision [OF w1 r h p w3 d3, of "ticks 80"]
    by simp
qed

section \<open>Facts about the content buffer and path-based I/O\<close>

lemma same_shapeD:
  "same_shape h h' \<Longrightarrow> h a = Some n \<Longrightarrow> \<exists>n'. h' a = Some n' \<and> shape n' = shape n"
  "same_shape h h' \<Longrightarrow> h a = None \<Longrightarrow> h' a = None"
  unfolding same_shape_def by (metis map_option_eq_Some option.simps(9), metis option.map_disc_iff)

lemma find_loop_shape: "same_shape h h' \<Longrightarrow> find_loop h' cs nm = find_loop h cs nm"
proof (induction cs)
  case Nil
  then show ?case by simp
next
  case (Cons c cs)
  show ?case
  proof (cases "h c")
    case None
    with same_shapeD(2) [OF Cons.prems] show ?thesis by simp
  next
    case (Some n)
    with same_shapeD(1) [OF Cons.prems Some] Cons show ?thesis
      by (auto simp: shape_def)
  qed
qed

lemma dir_find_shape: "same_shape h h' \<Longrightarrow> dir_find h' d nm = dir_find h d nm"
proof (cases d)
  case None
  then show ?thesis by (simp add: dir_find_def)
next
  case (Some a)
  assume S: "same_shape h h'"
  show ?thesis
  proof (cases "h a")
    case None
    with same_shapeD(2) [OF S] Some show ?thesis by (simp add: dir_find_def)
  next
    case (Some n)
    with same_shapeD(1) [OF S Some] \<open>d = Some a\<close> find_loop_shape [OF S] show ?thesis
      by (auto simp: dir_find_def shape_def)
  qed
qed

lemma walk_loop_shape:
  "same_shape h h' \<Longrightarrow> walk_loop h' cur toks wp leaf = walk_loop h cur toks wp leaf"
proof (induction toks arbitrary: cur)
  case Nil
  then show ?case by simp
next
  case (Cons tok toks)
  note S = Cons.prems
  note IH = Cons.IH [OF S]
  note DF = dir_find_shape [OF S]
  show ?case
  proof (cases "length tok = 0 \<or> length tok > NAME_MAX \<or> tok = ''.''")
    case True
    then show ?thesis using IH by auto
  next
    case False
    note F = this
    show ?thesis
    proof (cases "tok = ''..''")
      case True
      note T = this
      show ?thesis
      proof (cases cur)
        case None
        with T show ?thesis by (simp add: NAME_MAX_def)
      next
        case (Some c)
        note C = this
        show ?thesis
        proof (cases "h c")
          case None
          with same_shapeD(2) [OF S None] T C show ?thesis by (simp add: NAME_MAX_def)
        next
          case (Some n)
          from same_shapeD(1) [OF S Some] obtain n' where
            "h' c = Some n'" "parent n' = parent n" by (auto simp: shape_def)
          with Some T C IH show ?thesis by (simp add: NAME_MAX_def)
        qed
      qed
    next
      case False
      note N = this
      show ?thesis
      proof (cases "dir_find h cur tok")
        case None
        with F N DF show ?thesis by simp
      next
        case (Some r)
        note R = this
        show ?thesis
        proof (cases r)
          case None
          with F N DF R show ?thesis by simp
        next
          case (Some c)
          note C = this
          show ?thesis
          proof (cases "h c")
            case None
            with same_shapeD(2) [OF S None] F N DF R C show ?thesis by simp
          next
            case (Some n)
            from same_shapeD(1) [OF S Some] obtain n' where
              "h' c = Some n'" "ntype n' = ntype n" by (auto simp: shape_def)
            with Some F N DF R C IH show ?thesis by simp
          qed
        qed
      qed
    qed
  qed
qed

lemma grow_cap_result:
  "grow_cap c want = Some r \<Longrightarrow> want \<le> r \<and> (r = c \<or> r < SIZE_MOD)"
proof (induction c want r rule: grow_cap.raw_induct [rotated 1, consumes 1, case_names step])
  case (step grow c want r)
  show ?case
  proof (cases "c < want")
    case True
    with step have "want \<le> r \<and> (r = (c * 2) mod SIZE_MOD \<or> r < SIZE_MOD)" by simp
    then show ?thesis by (auto simp: SIZE_MOD_def)
  next
    case False
    with step show ?thesis by simp
  qed
qed

lemma ensure_cap_result:
  assumes E: "ensure_cap realloc_ok h f want = Some (r, h1)"
    and F: "h f = Some fn" and C: "cap fn < SIZE_MOD"
  shows "(r = - 1 \<and> h1 = h)
       \<or> (r = 0 \<and> (\<exists>d. h1 = h(f \<mapsto> fn\<lparr>data := data fn @ d\<rparr>)
                      \<and> want \<le> length (data fn @ d) \<and> length (data fn @ d) < SIZE_MOD))"
proof (cases "cap fn \<ge> want")
  case True
  with E F have "r = 0" "h1 = h" by (auto simp: ensure_cap_def)
  moreover have "h = h(f \<mapsto> fn\<lparr>data := data fn @ []\<rparr>)" using F by auto
  ultimately show ?thesis using True C
    by (intro disjI2 conjI exI [of _ "[]"]) (auto simp: cap_def)
next
  case False
  with E F obtain newcap where
    G: "grow_cap (if cap fn \<noteq> 0 then cap fn else 64) want = Some newcap"
    and R: "(r = - 1 \<and> h1 = h) \<or>
            (r = 0 \<and> h1 = h(f \<mapsto> fn\<lparr>data := data fn @ replicate (newcap - cap fn) 0\<rparr>))"
    by (auto simp: ensure_cap_def split: option.splits if_splits)
  from grow_cap_result [OF G] C have "want \<le> newcap" "newcap < SIZE_MOD"
    by (auto simp: SIZE_MOD_def split: if_splits)
  moreover have "cap fn \<le> newcap" using False \<open>want \<le> newcap\<close> by simp
  ultimately show ?thesis
    using R by (auto simp: cap_def)
qed

lemma walk_shape:
  "same_shape (heap s) h' \<Longrightarrow> walk (s\<lparr>heap := h'\<rparr>) path wp leaf = walk s path wp leaf"
  by (simp add: walk_def walk_from_def start_node_def walk_loop_shape split: option.splits)

lemma same_shape_upd:
  "h f = Some fn \<Longrightarrow> shape fn' = shape fn \<Longrightarrow> same_shape h (h(f \<mapsto> fn'))"
  by (simp add: same_shape_def)

lemma write_file_success:
  assumes WR: "write_file realloc_ok now path off b s = Some (r, s')" and R: "0 \<le> r"
    and RES: "walk s path False None = Some (Some f, l)"
    and FN: "heap s f = Some fn" and CAP: "cap fn < SIZE_MOD"
  shows "\<exists>d blk. poke (data fn @ d) off b = Some blk \<and> length (data fn @ d) < SIZE_MOD
           \<and> (off + length b) mod SIZE_MOD \<le> length (data fn @ d)
           \<and> ntype fn = N_FILE \<and> \<not> is_readonly fn
           \<and> s' = s\<lparr>heap := (heap s)(f \<mapsto> stamp now (fn\<lparr>data := blk,
                  fsize := (if (off + length b) mod SIZE_MOD > fsize fn
                            then (off + length b) mod SIZE_MOD else fsize fn)\<rparr>))\<rparr>"
proof -
  from WR R RES FN have T: "ntype fn = N_FILE" "\<not> is_readonly fn"
    by (auto simp: write_file_def Let_def split: if_splits)
  with WR R RES FN obtain r0 h1 where
    E: "ensure_cap realloc_ok (heap s) f ((off + length b) mod SIZE_MOD) = Some (r0, h1)"
    by (auto simp: write_file_def Let_def split: option.splits)
  from WR R RES FN T E have R0: "\<not> r0 < 0"
    by (auto simp: write_file_def Let_def split: if_splits)
  with ensure_cap_result [OF E FN CAP] obtain d where
    D: "h1 = (heap s)(f \<mapsto> fn\<lparr>data := data fn @ d\<rparr>)" "length (data fn @ d) < SIZE_MOD"
      "(off + length b) mod SIZE_MOD \<le> length (data fn @ d)"
    by auto
  from WR RES FN T E R0 D obtain blk where
    "poke (data fn @ d) off b = Some blk"
    "s' = s\<lparr>heap := (heap s)(f \<mapsto> stamp now (fn\<lparr>data := blk,
                  fsize := (if (off + length b) mod SIZE_MOD > fsize fn
                            then (off + length b) mod SIZE_MOD else fsize fn)\<rparr>))\<rparr>"
    by (auto simp: write_file_def Let_def split: option.splits)
  with D T show ?thesis by blast
qed

lemma write_file_example:
  "write_file (\<lambda>n. True) 90 (Some ''/f'') 3 [88, 89, 90] fs_example = Some (3, fs_written)"
  by (simp add: ex_defs fs_written_def write_file_def ensure_cap_def cap_def poke_in_block
      stamp_def to_ssize_def SIZE_MOD_def is_readonly_def ATTR_READONLY_def)

text \<open>
  When \<open>off + len\<close> does not wrap and the file's block is an object of the program (its
  capacity fits \<open>size_t\<close>), a write that returns \<open>len\<close> is read back: \<open>read_file\<close> at the
  same offset returns \<open>len\<close> and the bytes written.
\<close>

lemma read_after_write_in_range:
  assumes WR: "write_file realloc_ok now (Some p) off b s = Some (int (length b), s')"
    and RES: "walk s (Some p) False None = Some (Some f, l)"
    and FN: "heap s f = Some fn" and CAP: "cap fn < SIZE_MOD"
    and IN: "off + length b < SIZE_MOD"
  shows "\<exists>s''. read_file now' (Some p) off (length b) s' = Some ((int (length b), b), s'')"
proof -
  from IN have NEED: "(off + length b) mod SIZE_MOD = off + length b" by simp
  from write_file_success [OF WR _ RES FN CAP] obtain d blk where
    P: "poke (data fn @ d) off b = Some blk" and L: "length (data fn @ d) < SIZE_MOD"
    and B: "off + length b \<le> length (data fn @ d)"
    and T: "ntype fn = N_FILE" "\<not> is_readonly fn"
    and S: "s' = s\<lparr>heap := (heap s)(f \<mapsto> stamp now (fn\<lparr>data := blk,
                  fsize := (if (off + length b) mod SIZE_MOD > fsize fn
                            then (off + length b) mod SIZE_MOD else fsize fn)\<rparr>))\<rparr>"
    unfolding NEED by auto
  define f3 where "f3 = stamp now (fn\<lparr>data := blk,
                  fsize := (if (off + length b) mod SIZE_MOD > fsize fn
                            then (off + length b) mod SIZE_MOD else fsize fn)\<rparr>)"
  from P B L have BLK: "blk = take off (data fn @ d) @ b @ drop (off + length b) (data fn @ d)"
    using poke_in_block [of off b "data fn @ d"] by simp
  have SZ: "off + length b \<le> fsize f3"
    by (simp add: f3_def stamp_def NEED)
  have DT: "data f3 = blk" "ntype f3 = N_FILE"
    using T by (simp_all add: f3_def stamp_def)
  have SH: "same_shape (heap s) ((heap s)(f \<mapsto> f3))"
    using same_shape_upd [of "heap s" f fn f3] FN by (simp add: f3_def stamp_def shape_def)
  have S': "s' = s\<lparr>heap := (heap s)(f \<mapsto> f3)\<rparr>"
    using S by (simp add: f3_def)
  have W: "walk s' (Some p) False None = Some (Some f, l)"
    unfolding S' using walk_shape [OF SH] RES by simp
  have HF: "heap s' f = Some f3" by (simp add: S')
  from WR have TS: "to_ssize (length b) = int (length b)"
    using RES FN T by (auto simp: write_file_def Let_def split: option.splits if_splits)
  have LB: "length blk = length (data fn @ d)"
    using B by (simp add: BLK)
  show ?thesis
  proof (cases "off \<ge> fsize f3")
    case True
    with SZ have "b = []" by (cases b) auto
    with True W HF DT show ?thesis by (simp add: read_file_def)
  next
    case False
    have PK: "peek (data f3) off (length b) = Some b"
      using B LB by (simp add: peek_def DT BLK)
    from False SZ have N: "(if fsize f3 - off > length b then length b else fsize f3 - off) = length b"
      by auto
    show ?thesis
      using False W HF DT PK TS by (simp add: read_file_def Let_def N)
  qed
qed

lemma read_after_write_in_range_example:
  "write_file (\<lambda>n. True) 90 (Some ''/f'') 3 [88, 89, 90] fs_example = Some (3, fs_written)
   \<and> walk fs_example (Some ''/f'') False None = Some (Some 2, None)
   \<and> cap (mk_node N_FILE ''f'' (Some 0) 0 [] ab_block 2) < SIZE_MOD
   \<and> (\<exists>s''. read_file 91 (Some ''/f'') 3 3 fs_written = Some ((3, [88, 89, 90]), s''))"
proof -
  have w: "walk fs_example (Some ''/f'') False None = Some (Some 2, None)"
    by (simp add: ex_defs)
  have h: "heap fs_example 2 = Some (mk_node N_FILE ''f'' (Some 0) 0 [] ab_block 2)"
    by (simp add: fs_example_def)
  have c: "cap (mk_node N_FILE ''f'' (Some 0) 0 [] ab_block 2) < SIZE_MOD"
    by (simp add: cap_def mk_node_def ab_block_def SIZE_MOD_def)
  have i: "3 + length [88, 89, 90 :: 8 word] < SIZE_MOD"
    by (simp add: SIZE_MOD_def)
  have wr: "write_file (\<lambda>n. True) 90 (Some ''/f'') 3 [88, 89, 90] fs_example
              = Some (int (length [88, 89, 90 :: 8 word]), fs_written)"
    using write_file_example by simp
  show ?thesis
    using read_after_write_in_range [OF wr w h c i, of 91] wr w c
    by (simp add: numeral_3_eq_3 [symmetric])
qed

section \<open>Claims about path-based I/O\<close>

text \<open>
  C1 fails on the code. \<open>write_file\<close> computes \<open>need = off + len\<close> on \<open>size_t\<close> without a
  test for overflow. On the 2-byte file \<open>/f\<close>, \<open>write_file("/f", SIZE_MAX, "XY", 2)\<close> has
  \<open>need = 1\<close>: the block is not grown, the size stays 2, and the call returns 2. The
  following \<open>read_file("/f", SIZE_MAX, buf, 2)\<close> finds the offset at or past the size and
  returns 0 with no byte copied, instead of 2 with the bytes written.
\<close>

theorem write_file_wrapped_offset:
  "write_file (\<lambda>n. True) 90 (Some ''/f'') 18446744073709551615 [88, 89] fs_example
     = Some (2, fs_wrapped)
   \<and> read_file 91 (Some ''/f'') 18446744073709551615 2 fs_wrapped = Some ((0, []), fs_wrapped)
   \<and> (18446744073709551615 :: nat) = SIZE_MOD - 1"
  by (simp add: ex_defs fs_wrapped_def write_file_def read_file_def ensure_cap_def cap_def
      poke_def stamp_def to_ssize_def SIZE_MOD_def is_readonly_def ATTR_READONLY_def)

section \<open>Facts about failing calls\<close>

lemma to_ssize_nonneg: "n < 2 ^ 63 \<Longrightarrow> 0 \<le> to_ssize n"
  by (simp add: to_ssize_def SIZE_MOD_def)

lemma to_ssize_neg: "to_ssize n < 0 \<Longrightarrow> 2 ^ 63 \<le> n"
proof (rule ccontr)
  assume "to_ssize n < 0" and "\<not> 2 ^ 63 \<le> n"
  then show False using to_ssize_nonneg [of n] by simp
qed

lemma dir_add_fail: "dir_add now h d c = Some (None, h') \<Longrightarrow> h' = h"
  by (auto simp: dir_add_def Let_def split: option.splits if_splits)

lemma ensure_cap_fail:
  "ensure_cap ok h f want = Some (r, h') \<Longrightarrow> r = - 1 \<and> h' = h \<or> r = 0"
  by (auto simp: ensure_cap_def split: option.splits if_splits)

lemma create_file_fail:
  assumes "create_file clk m path s = Some (r, s')" "r < 0"
  shows "s' = s"
proof -
  have K: "s\<lparr>heap := h3\<rparr> = s"
    if N: "node_new (clk 0) m N_FILE leaf (Some p) (heap s) = Some (f, h1)"
      and A: "dir_add (clk 1) h1 (Some p) f = Some (None, h2)"
      and F: "node_free h2 f = Some h3" for leaf p f h1 h2 h3
  proof -
    from N obtain a where a: "m = Some a" "heap s a = None" "f = Some a"
      "h1 = (heap s)(a \<mapsto> \<lparr>ntype = N_FILE, name = take NAME_MAX leaf, parent = Some p,
                    created = clk 0, modified = clk 0, accessed = clk 0,
                    attributes = ATTR_NONE, children = [], data = [], fsize = 0\<rparr>)"
      by (auto simp: node_new_def split: option.splits if_splits)
    from dir_add_fail [OF A] have "h2 = h1" .
    with F a have "h3 = h1(a := None)"
      using free_tasks_file [of h1 a _] by simp
    with a show ?thesis by (simp add: fun_upd_idem)
  qed
  from assms show ?thesis
    by (auto simp: create_file_def Let_def K split: option.splits if_splits)
qed

lemma rm_file_fail: "rm_file now path s = Some (r, s') \<Longrightarrow> r < 0 \<Longrightarrow> s' = s"
  by (auto simp: rm_file_def split: option.splits if_splits)

lemma rmdir_empty_fail: "rmdir_empty now path s = Some (r, s') \<Longrightarrow> r < 0 \<Longrightarrow> s' = s"
  by (auto simp: rmdir_empty_def split: option.splits if_splits)

lemma write_file_fail:
  "write_file ok now path off b s = Some (r, s') \<Longrightarrow> r < 0 \<Longrightarrow> length b < 2 ^ 63 \<Longrightarrow> s' = s"
  by (auto simp: write_file_def Let_def split: option.splits if_splits
      dest!: ensure_cap_fail to_ssize_neg)

lemma read_file_fail:
  "read_file now path off len s = Some ((r, bytes), s') \<Longrightarrow> r < 0 \<Longrightarrow> len < 2 ^ 63 \<Longrightarrow> s' = s"
  by (auto simp: read_file_def Let_def split: option.splits if_splits dest!: to_ssize_neg)

lemma fs_open_fail: "fs_open now path fl s = Some (r, s') \<Longrightarrow> r < 0 \<Longrightarrow> s' = s"
  by (auto simp: fs_open_def split: option.splits if_splits)

lemma fs_close_fail: "fs_close fd s = Some (r, s') \<Longrightarrow> r < 0 \<Longrightarrow> s' = s"
  by (auto simp: fs_close_def split: option.splits if_splits)

lemma fs_read_fd_fail:
  "fs_read_fd now fd buf len s = Some ((r, bytes), s') \<Longrightarrow> r < 0 \<Longrightarrow> len < 2 ^ 63 \<Longrightarrow> s' = s"
  by (auto simp: fs_read_fd_def Let_def split: option.splits if_splits dest!: to_ssize_neg)

lemma fs_write_fd_fail:
  "fs_write_fd ok now fd buf s = Some (r, s') \<Longrightarrow> r < 0 \<Longrightarrow>
   (case buf of None \<Rightarrow> True | Some b \<Rightarrow> length b < 2 ^ 63) \<Longrightarrow> s' = s"
  by (auto simp: fs_write_fd_def Let_def split: option.splits if_splits
      dest!: ensure_cap_fail to_ssize_neg)

lemma fs_seek_fail: "fs_seek fd ofs whence s = Some (r, s') \<Longrightarrow> r < 0 \<Longrightarrow> s' = s"
  by (auto simp: fs_seek_def Let_def split: option.splits if_splits)

lemma set_file_attributes_fail:
  "set_file_attributes now path attrs s = Some (r, s') \<Longrightarrow> r < 0 \<Longrightarrow> s' = s"
  by (auto simp: set_file_attributes_def split: option.splits if_splits)

lemma touch_file_fail: "touch_file now path s = Some (r, s') \<Longrightarrow> r < 0 \<Longrightarrow> s' = s"
  by (auto simp: touch_file_def split: option.splits if_splits)

lemma fs_cd_fail: "fs_cd now path s = Some (r, s') \<Longrightarrow> r < 0 \<Longrightarrow> s' = s"
  by (auto simp: fs_cd_def split: option.splits if_splits)

lemma ls_dir_fail: "ls_dir now path s = Some ((r, ls), s') \<Longrightarrow> r < 0 \<Longrightarrow> s' = s"
  by (auto simp: ls_dir_def split: option.splits if_splits)

lemma get_file_info_fail:
  "get_file_info now path info s = Some ((r, out), s') \<Longrightarrow> r < 0 \<Longrightarrow> s' = s"
  by (auto simp: get_file_info_def split: option.splits if_splits)

lemma fs_search_fail: "fs_search clk term s = Some (r, s') \<Longrightarrow> r < 0 \<Longrightarrow> s' = s"
  by (auto simp: fs_search_def split: option.splits if_splits)

section \<open>Claims about error propagation\<close>

text \<open>
  C2 (as amended). For every operation other than \<open>rename_file\<close> and \<open>mkdir_p\<close>, that is
  for \<open>create_file\<close>, \<open>rm_file\<close>, \<open>rmdir_empty\<close>, \<open>write_file\<close>, \<open>read_file\<close>, \<open>fs_open\<close>,
  \<open>fs_close\<close>, \<open>fs_read_fd\<close>, \<open>fs_write_fd\<close>, \<open>fs_seek\<close>, \<open>set_file_attributes\<close>,
  \<open>touch_file\<close>, \<open>fs_cd\<close>, \<open>ls_dir\<close>, \<open>get_file_info\<close> and \<open>fs_search\<close>: if the call returns
  an error (a negative value), the store after the call is the store before it. The
  buffer lengths are lengths of C objects, below \<open>2^63\<close>, so that a returned byte count is
  not read as negative.
\<close>

theorem failure_leaves_store_unchanged:
  "(create_file clk m path s = Some (r, s') \<and> r < 0 \<longrightarrow> s' = s)
   \<and> (rm_file now path s = Some (r, s') \<and> r < 0 \<longrightarrow> s' = s)
   \<and> (rmdir_empty now path s = Some (r, s') \<and> r < 0 \<longrightarrow> s' = s)
   \<and> (write_file realloc_ok now path off b s = Some (r, s') \<and> r < 0 \<and> length b < 2 ^ 63 \<longrightarrow>
        s' = s)
   \<and> (read_file now path off len s = Some ((r, bytes), s') \<and> r < 0 \<and> len < 2 ^ 63 \<longrightarrow> s' = s)
   \<and> (fs_open now path fl s = Some (r, s') \<and> r < 0 \<longrightarrow> s' = s)
   \<and> (fs_close fd s = Some (r, s') \<and> r < 0 \<longrightarrow> s' = s)
   \<and> (fs_read_fd now fd buf len s = Some ((r, bytes), s') \<and> r < 0 \<and> len < 2 ^ 63 \<longrightarrow> s' = s)
   \<and> (fs_write_fd realloc_ok now fd (Some b) s = Some (r, s') \<and> r < 0 \<and> length b < 2 ^ 63 \<longrightarrow>
        s' = s)
   \<and> (fs_write_fd realloc_ok now fd None s = Some (r, s') \<and> r < 0 \<longrightarrow> s' = s)
   \<and> (fs_seek fd ofs whence s = Some (r, s') \<and> r < 0 \<longrightarrow> s' = s)
   \<and> (set_file_attributes now path attrs s = Some (r, s') \<and> r < 0 \<longrightarrow> s' = s)
   \<and> (touch_file now path s = Some (r, s') \<and> r < 0 \<longrightarrow> s' = s)
   \<and> (fs_cd now path s = Some (r, s') \<and> r < 0 \<longrightarrow> s' = s)
   \<and> (ls_dir now path s = Some ((r, ls), s') \<and> r < 0 \<longrightarrow> s' = s)
   \<and> (get_file_info now path info s = Some ((r, out), s') \<and> r < 0 \<longrightarrow> s' = s)
   \<and> (fs_search clk term s = Some (r, s') \<and> r < 0 \<longrightarrow> s' = s)"
proof (intro conjI impI; elim conjE)
  show "create_file clk m path s = Some (r, s') \<Longrightarrow> r < 0 \<Longrightarrow> s' = s"
    by (rule create_file_fail)
  show "rm_file now path s = Some (r, s') \<Longrightarrow> r < 0 \<Longrightarrow> s' = s"
    by (rule rm_file_fail)
  show "rmdir_empty now path s = Some (r, s') \<Longrightarrow> r < 0 \<Longrightarrow> s' = s"
    by (rule rmdir_empty_fail)
  show "write_file realloc_ok now path off b s = Some (r, s') \<Longrightarrow> r < 0 \<Longrightarrow> length b < 2 ^ 63
        \<Longrightarrow> s' = s"
    by (rule write_file_fail)
  show "read_file now path off len s = Some ((r, bytes), s') \<Longrightarrow> r < 0 \<Longrightarrow> len < 2 ^ 63
        \<Longrightarrow> s' = s"
    by (rule read_file_fail)
  show "fs_open now path fl s = Some (r, s') \<Longrightarrow> r < 0 \<Longrightarrow> s' = s"
    by (rule fs_open_fail)
  show "fs_close fd s = Some (r, s') \<Longrightarrow> r < 0 \<Longrightarrow> s' = s"
    by (rule fs_close_fail)
  show "fs_read_fd now fd buf len s = Some ((r, bytes), s') \<Longrightarrow> r < 0 \<Longrightarrow> len < 2 ^ 63
        \<Longrightarrow> s' = s"
    by (rule fs_read_fd_fail)
  show "fs_write_fd realloc_ok now fd (Some b) s = Some (r, s') \<Longrightarrow> r < 0 \<Longrightarrow> length b < 2 ^ 63
        \<Longrightarrow> s' = s"
    using fs_write_fd_fail [of realloc_ok now fd "Some b" s r s'] by simp
  show "fs_write_fd realloc_ok now fd None s = Some (r, s') \<Longrightarrow> r < 0 \<Longrightarrow> s' = s"
    using fs_write_fd_fail [of realloc_ok now fd None s r s'] by simp
  show "fs_seek fd ofs whence s = Some (r, s') \<Longrightarrow> r < 0 \<Longrightarrow> s' = s"
    by (rule fs_seek_fail)
  show "set_file_attributes now path attrs s = Some (r, s') \<Longrightarrow> r < 0 \<Longrightarrow> s' = s"
    by (rule set_file_attributes_fail)
  show "touch_file now path s = Some (r, s') \<Longrightarrow> r < 0 \<Longrightarrow> s' = s"
    by (rule touch_file_fail)
  show "fs_cd now path s = Some (r, s') \<Longrightarrow> r < 0 \<Longrightarrow> s' = s"
    by (rule fs_cd_fail)
  show "ls_dir now path s = Some ((r, ls), s') \<Longrightarrow> r < 0 \<Longrightarrow> s' = s"
    by (rule ls_dir_fail)
  show "get_file_info now path info s = Some ((r, out), s') \<Longrightarrow> r < 0 \<Longrightarrow> s' = s"
    by (rule get_file_info_fail)
  show "fs_search clk term s = Some (r, s') \<Longrightarrow> r < 0 \<Longrightarrow> s' = s"
    by (rule fs_search_fail)
qed

lemmas fail_defs = ex_defs is_readonly_def ATTR_READONLY_def fd_ok_def MAX_OPEN_FILES_def

theorem failure_leaves_store_unchanged_witness:
  "create_file (ticks 50) (Some 9) (Some ''/f'') fs_example = Some (- 1, fs_example)
   \<and> rm_file 50 (Some ''/docs/ro'') fs_example = Some (- 1, fs_example)
   \<and> rmdir_empty 50 (Some ''/docs'') fs_example = Some (- 1, fs_example)
   \<and> write_file (\<lambda>n. True) 50 (Some ''/docs/ro'') 0 [1] fs_example = Some (- 1, fs_example)
   \<and> read_file 50 (Some ''/docs'') 0 1 fs_example = Some ((- 1, []), fs_example)
   \<and> fs_open 50 (Some ''/nofile'') O_RDONLY fs_example = Some (- 1, fs_example)
   \<and> fs_close 5 fs_example = Some (- 1, fs_example)
   \<and> fs_read_fd 50 0 True 1 fs_example = Some ((- 1, []), fs_example)
   \<and> fs_write_fd (\<lambda>n. True) 50 0 (Some [1]) fs_example = Some (- 1, fs_example)
   \<and> fs_write_fd (\<lambda>n. True) 50 0 None fs_full = Some (- 1, fs_full)
   \<and> fs_seek 0 0 0 fs_example = Some (- 1, fs_example)
   \<and> set_file_attributes 50 (Some ''/nofile'') 0 fs_example = Some (- 1, fs_example)
   \<and> touch_file 50 (Some ''/nofile'') fs_example = Some (- 1, fs_example)
   \<and> fs_cd 50 (Some ''/f'') fs_example = Some (- 1, fs_example)
   \<and> ls_dir 50 (Some ''/f'') fs_example = Some ((- 1, []), fs_example)
   \<and> get_file_info 50 (Some ''/nofile'') True fs_example = Some ((- 1, None), fs_example)
   \<and> fs_search (ticks 50) (Some []) fs_example = Some (- 1, fs_example)"
proof -
  have e1: "create_file (ticks 50) (Some 9) (Some ''/f'') fs_example = Some (- 1, fs_example)"
    by (simp add: fail_defs create_file_def)
  have e2: "rm_file 50 (Some ''/docs/ro'') fs_example = Some (- 1, fs_example)"
    by (simp add: fail_defs rm_file_def)
  have e3: "rmdir_empty 50 (Some ''/docs'') fs_example = Some (- 1, fs_example)"
    by (simp add: fail_defs rmdir_empty_def child_count_def)
  have e4: "write_file (\<lambda>n. True) 50 (Some ''/docs/ro'') 0 [1] fs_example
              = Some (- 1, fs_example)"
    by (simp add: fail_defs write_file_def)
  have e5: "read_file 50 (Some ''/docs'') 0 1 fs_example = Some ((- 1, []), fs_example)"
    by (simp add: fail_defs read_file_def)
  have e6: "fs_open 50 (Some ''/nofile'') O_RDONLY fs_example = Some (- 1, fs_example)"
    by (simp add: fail_defs fs_open_def)
  have e7: "fs_close 5 fs_example = Some (- 1, fs_example)"
    by (simp add: fail_defs fs_close_def)
  have e8: "fs_read_fd 50 0 True 1 fs_example = Some ((- 1, []), fs_example)"
    by (simp add: fail_defs fs_read_fd_def)
  have e9: "fs_write_fd (\<lambda>n. True) 50 0 (Some [1]) fs_example = Some (- 1, fs_example)"
    by (simp add: fail_defs fs_write_fd_def)
  have e10: "fs_write_fd (\<lambda>n. True) 50 0 None fs_full = Some (- 1, fs_full)"
    by (simp add: fail_defs fs_full_def fs_write_fd_def)
  have e11: "fs_seek 0 0 0 fs_example = Some (- 1, fs_example)"
    by (simp add: fail_defs fs_seek_def)
  have e12: "set_file_attributes 50 (Some ''/nofile'') 0 fs_example = Some (- 1, fs_example)"
    by (simp add: fail_defs set_file_attributes_def)
  have e13: "touch_file 50 (Some ''/nofile'') fs_example = Some (- 1, fs_example)"
    by (simp add: fail_defs touch_file_def)
  have e14: "fs_cd 50 (Some ''/f'') fs_example = Some (- 1, fs_example)"
    by (simp add: fail_defs fs_cd_def)
  have e15: "ls_dir 50 (Some ''/f'') fs_example = Some ((- 1, []), fs_example)"
    by (simp add: fail_defs ls_dir_def)
  have e16: "get_file_info 50 (Some ''/nofile'') True fs_example
               = Some ((- 1, None), fs_example)"
    by (simp add: fail_defs get_file_info_def)
  have e17: "fs_search (ticks 50) (Some []) fs_example = Some (- 1, fs_example)"
    by (simp add: fs_search_def)
  show ?thesis
    using e1 e2 e3 e4 e5 e6 e7 e8 e9 e10 e11 e12 e13 e14 e15 e16 e17
      failure_leaves_store_unchanged [where s = fs_example and s' = fs_example and r = "- 1"
        and now = 50 and clk = "ticks 50" and m = "Some 9" and path = "Some ''/f''"]
    by simp
qed

text \<open>
  C2 as stated fails for \<open>mkdir_p\<close>, which creates the missing directories segment by
  segment and has no rollback: \<open>mkdir_p("/new/../f/x")\<close> creates \<open>/new\<close>, then fails on the
  file \<open>f\<close>, and returns \<open>-1\<close> with \<open>/new\<close> left in the root.
\<close>

theorem mkdir_p_failure_counterexample:
  "mkdir_p (ticks 50) (\<lambda>k. Some (10 + k)) (Some ''/new/../f/x'') fs_example = Some (- 1, fs_after_mkdir)
   \<and> heap fs_example 10 = None
   \<and> map_option name (heap fs_after_mkdir 10) = Some ''new''
   \<and> map_option children (heap fs_example 0) = Some [1, 2, 4]
   \<and> map_option children (heap fs_after_mkdir 0) = Some [1, 2, 4, 10]"
  by (simp add: ex_defs fs_after_mkdir_def mkdir_p_def node_new_def dir_add_def upd_node_def
      child_count_def MAX_CHILDREN_def ATTR_NONE_def fun_upd_twist ticks_def)

section \<open>Facts about the attribute bitsets\<close>

lemma attrs_kept_bound:
  "attr_map (heap s) \<subseteq>\<^sub>m m \<Longrightarrow> attr_map (heap s') \<subseteq>\<^sub>m m \<Longrightarrow> attrs_kept s s'"
  unfolding attrs_kept_def map_le_def attr_map_def
  by (metis domI option.sel option.simps(9))

lemma attrs_kept_grow: "attr_map (heap s) \<subseteq>\<^sub>m attr_map (heap s') \<Longrightarrow> attrs_kept s s'"
  by (rule attrs_kept_bound [of s "attr_map (heap s')"]) simp_all

lemma attrs_kept_shrink: "attr_map (heap s') \<subseteq>\<^sub>m attr_map (heap s) \<Longrightarrow> attrs_kept s s'"
  by (rule attrs_kept_bound [of s "attr_map (heap s)"]) simp_all

lemma attrs_kept_same: "attr_map (heap s') = attr_map (heap s) \<Longrightarrow> attrs_kept s s'"
  by (rule attrs_kept_grow) simp

lemma attr_map_upd:
  "h a = Some n \<Longrightarrow> attributes n' = attributes n \<Longrightarrow> attr_map (h(a \<mapsto> n')) = attr_map h"
  by (auto simp: attr_map_def fun_eq_iff)

lemma attr_map_upd_node:
  "(\<And>n. attributes (f n) = attributes n) \<Longrightarrow> attr_map (upd_node h a f) = attr_map h"
  by (auto simp: attr_map_def upd_node_def fun_eq_iff split: option.splits)

lemma attr_map_alloc: "h a = None \<Longrightarrow> attr_map h \<subseteq>\<^sub>m attr_map (h(a \<mapsto> n))"
  by (auto simp: attr_map_def map_le_def)

lemma attr_map_free: "attr_map (h(a := None)) \<subseteq>\<^sub>m attr_map h"
  by (auto simp: attr_map_def map_le_def)

lemma node_new_attrs:
  "node_new now m t nm par h = Some (r, h') \<Longrightarrow> attr_map h \<subseteq>\<^sub>m attr_map h'"
  by (auto simp: node_new_def attr_map_alloc split: option.splits if_splits)

lemma dir_add_attrs: "dir_add now h d c = Some (r, h') \<Longrightarrow> attr_map h' = attr_map h"
  by (auto simp: dir_add_def Let_def attr_map_upd_node split: option.splits if_splits)

lemma ensure_cap_attrs: "ensure_cap ok h f want = Some (r, h') \<Longrightarrow> attr_map h' = attr_map h"
  by (auto simp: ensure_cap_def attr_map_upd split: option.splits if_splits)

lemma free_tasks_attrs: "free_tasks h ts = Some h' \<Longrightarrow> attr_map h' \<subseteq>\<^sub>m attr_map h"
proof (induction h ts h' rule: free_tasks.raw_induct [rotated 1, consumes 1, case_names step])
  case (step free h ts h')
  show ?case
  proof (cases ts)
    case Nil
    with step show ?thesis by simp
  next
    case (Cons t rest)
    show ?thesis
    proof (cases t)
      case (Visit a)
      with step Cons show ?thesis by (auto split: option.splits)
    next
      case (Release a)
      with step(2) Cons obtain n where "h a = Some n" "free (h(a := None)) rest = Some h'"
        by (auto split: option.splits)
      from step(1) [OF this(2)] attr_map_free [of h a] show ?thesis
        by (rule map_le_trans)
    qed
  qed
qed

lemma node_free_attrs: "node_free h n = Some h' \<Longrightarrow> attr_map h' \<subseteq>\<^sub>m attr_map h"
  by (auto simp: node_free_def dest: free_tasks_attrs split: option.splits)

lemma search_tasks_attrs:
  "search_tasks clk j rt term h ts k = Some (k', h') \<Longrightarrow> attr_map h' = attr_map h"
proof (induction clk j rt "term" h ts k "(k', h')"
    rule: search_tasks.raw_induct [rotated 1, consumes 1, case_names step])
  case (step search clk j rt "term" h ts k)
  show ?case
  proof (cases ts)
    case Nil
    with step show ?thesis by simp
  next
    case (Cons a rest)
    with step(2) obtain n where N: "h a = Some n"
      and S: "search clk (Suc j) rt term (h(a \<mapsto> n\<lparr>accessed := clk j\<rparr>))
                 ((if ntype n = N_DIR then children n else []) @ rest)
                 (if Some a \<noteq> rt \<and> strstr (name n) term then Suc k else k) = Some (k', h')"
      by (auto split: option.splits)
    from step(1) [OF S] have "attr_map h' = attr_map (h(a \<mapsto> n\<lparr>accessed := clk j\<rparr>))" by simp
    also have "\<dots> = attr_map h" using N by (simp add: attr_map_upd)
    finally show ?thesis .
  qed
qed

lemma mkdir_loop_attrs:
  "mkdir_loop clk j al k h cur toks = Some (r, h') \<Longrightarrow> attr_map h \<subseteq>\<^sub>m attr_map h'"
proof (induction toks arbitrary: j k h cur)
  case Nil
  then show ?case by simp
next
  case (Cons tok toks)
  show ?case
  proof (cases "length tok = 0 \<or> length tok > NAME_MAX")
    case True
    with Cons.prems show ?thesis by auto
  next
    case False
    note F = this
    show ?thesis
    proof (cases "tok = ''.'' \<or> tok = ''..''")
      case True
      with Cons.prems F Cons.IH show ?thesis
        by (auto split: option.splits)
    next
      case False
      note N = this
      show ?thesis
      proof (cases "dir_find h cur tok")
        case None
        with Cons.prems F N show ?thesis by simp
      next
        case (Some e)
        note E = this
        show ?thesis
        proof (cases e)
          case None
          with Cons.prems F N E obtain n h1 ro h2 where
            A: "node_new (clk j) (al k) N_DIR tok cur h = Some (n, h1)"
            and B: "dir_add (clk (Suc j)) h1 cur n = Some (ro, h2)"
            and C: "ro = None \<and> h' = h2 \<or> mkdir_loop clk (Suc (Suc j)) al (Suc k) h2 n toks = Some (r, h')"
            by (auto split: option.splits)
          from node_new_attrs [OF A] dir_add_attrs [OF B] have "attr_map h \<subseteq>\<^sub>m attr_map h2"
            by simp
          with C Cons.IH show ?thesis
            by (auto intro: map_le_trans)
        next
          case (Some c)
          with Cons.prems F N E obtain nn where
            A: "h c = Some nn"
            and C: "h' = h \<or> mkdir_loop clk (Suc j) al k (h(c \<mapsto> nn\<lparr>accessed := clk j\<rparr>)) (Some c) toks
                      = Some (r, h')"
            by (auto split: option.splits if_splits)
          have U: "attr_map (h(c \<mapsto> nn\<lparr>accessed := clk j\<rparr>)) = attr_map h"
            using A by (simp add: attr_map_upd)
          from C show ?thesis
          proof
            assume "h' = h"
            then show ?thesis by simp
          next
            assume "mkdir_loop clk (Suc j) al k (h(c \<mapsto> nn\<lparr>accessed := clk j\<rparr>)) (Some c) toks
                      = Some (r, h')"
            from Cons.IH [OF this] show ?thesis unfolding U .
          qed
        qed
      qed
    qed
  qed
qed

lemma fs_init_attrs: "fs_init now m s = Some (r, s') \<Longrightarrow> attrs_kept s s'"
  by (rule attrs_kept_grow) (auto simp: fs_init_def dest: node_new_attrs split: option.splits)

lemma fs_destroy_attrs: "fs_destroy s = Some (r, s') \<Longrightarrow> attrs_kept s s'"
  by (rule attrs_kept_shrink) (auto simp: fs_destroy_def dest: node_free_attrs split: option.splits)

lemma fs_cd_attrs: "fs_cd now path s = Some (r, s') \<Longrightarrow> attrs_kept s s'"
  by (rule attrs_kept_same) (auto simp: fs_cd_def attr_map_upd split: option.splits if_splits)

lemma mkdir_p_attrs: "mkdir_p clk al path s = Some (r, s') \<Longrightarrow> attrs_kept s s'"
  by (rule attrs_kept_grow)
    (auto simp: mkdir_p_def dest: mkdir_loop_attrs split: option.splits if_splits)

lemma create_file_attrs:
  assumes "create_file clk m path s = Some (r, s')"
  shows "attrs_kept s s'"
proof (cases "s' = s")
  case True
  then show ?thesis by (auto simp: attrs_kept_def)
next
  case False
  with assms obtain leaf p f h1 ro h2 where
    N: "node_new (clk 0) m N_FILE leaf (Some p) (heap s) = Some (f, h1)"
    and A: "dir_add (clk 1) h1 (Some p) f = Some (ro, h2)"
    and R: "(\<exists>h3. node_free h2 f = Some h3 \<and> s' = s\<lparr>heap := h3\<rparr>)
            \<or> s' = s\<lparr>heap := upd_node h2 p (stamp (clk 2))\<rparr>"
    by (auto simp: create_file_def Let_def split: option.splits if_splits)
  from node_new_attrs [OF N] dir_add_attrs [OF A] have G: "attr_map (heap s) \<subseteq>\<^sub>m attr_map h2"
    by simp
  from R show ?thesis
  proof
    assume "\<exists>h3. node_free h2 f = Some h3 \<and> s' = s\<lparr>heap := h3\<rparr>"
    then obtain h3 where "node_free h2 f = Some h3" "s' = s\<lparr>heap := h3\<rparr>" by blast
    with node_free_attrs [of h2 f h3] G show ?thesis
      by (intro attrs_kept_bound [of s "attr_map h2" s']) simp_all
  next
    assume "s' = s\<lparr>heap := upd_node h2 p (stamp (clk 2))\<rparr>"
    with G show ?thesis
      by (intro attrs_kept_grow) (simp add: attr_map_upd_node stamp_def)
  qed
qed

lemma write_file_attrs:
  assumes "write_file ok now path off b s = Some (r, s')"
  shows "attrs_kept s s'"
proof (rule attrs_kept_same)
  show "attr_map (heap s') = attr_map (heap s)"
    using assms
    by (auto simp: write_file_def Let_def attr_map_upd stamp_def
        split: option.splits if_splits dest!: ensure_cap_attrs)
qed

lemma read_file_attrs: "read_file now path off len s = Some (r, s') \<Longrightarrow> attrs_kept s s'"
  by (rule attrs_kept_same)
    (auto simp: read_file_def Let_def attr_map_upd split: option.splits if_splits)

lemma rm_file_attrs:
  assumes "rm_file now path s = Some (r, s')"
  shows "attrs_kept s s'"
proof (cases "s' = s")
  case True
  then show ?thesis by (auto simp: attrs_kept_def)
next
  case False
  with assms obtain p i c h2 where
    F: "node_free (upd_node (heap s) p (\<lambda>n. n\<lparr>children := swap_remove (children n) i\<rparr>))
          (Some c) = Some h2"
    and S: "s' = s\<lparr>heap := upd_node h2 p (stamp now)\<rparr>"
    by (auto simp: rm_file_def split: option.splits if_splits)
  from node_free_attrs [OF F] have "attr_map h2 \<subseteq>\<^sub>m attr_map (heap s)"
    by (simp add: attr_map_upd_node)
  with S show ?thesis
    by (intro attrs_kept_shrink) (simp add: attr_map_upd_node stamp_def)
qed

lemma rmdir_empty_attrs:
  assumes "rmdir_empty now path s = Some (r, s')"
  shows "attrs_kept s s'"
proof (cases "s' = s")
  case True
  then show ?thesis by (auto simp: attrs_kept_def)
next
  case False
  with assms obtain p i d h2 where
    F: "node_free (upd_node (heap s) p (\<lambda>n. n\<lparr>children := swap_remove (children n) i\<rparr>))
          (Some d) = Some h2"
    and S: "s' = s\<lparr>heap := upd_node h2 p (stamp now)\<rparr>"
    by (auto simp: rmdir_empty_def split: option.splits if_splits)
  from node_free_attrs [OF F] have "attr_map h2 \<subseteq>\<^sub>m attr_map (heap s)"
    by (simp add: attr_map_upd_node)
  with S show ?thesis
    by (intro attrs_kept_shrink) (simp add: attr_map_upd_node stamp_def)
qed

lemma ls_dir_attrs: "ls_dir now path s = Some (r, s') \<Longrightarrow> attrs_kept s s'"
  by (rule attrs_kept_same)
    (auto simp: ls_dir_def attr_map_upd split: option.splits if_splits)

lemma get_file_info_attrs: "get_file_info now path info s = Some (r, s') \<Longrightarrow> attrs_kept s s'"
  by (rule attrs_kept_same)
    (auto simp: get_file_info_def attr_map_upd split: option.splits if_splits)

lemma touch_file_attrs: "touch_file now path s = Some (r, s') \<Longrightarrow> attrs_kept s s'"
  by (rule attrs_kept_same)
    (auto simp: touch_file_def attr_map_upd split: option.splits if_splits)

lemma fs_search_attrs: "fs_search clk term s = Some (r, s') \<Longrightarrow> attrs_kept s s'"
  by (rule attrs_kept_same)
    (auto simp: fs_search_def split: option.splits if_splits dest: search_tasks_attrs)

lemma rename_finish_attrs: "rename_finish now n nm h = Some h' \<Longrightarrow> attr_map h' = attr_map h"
  by (auto simp: rename_finish_def Let_def attr_map_upd split: option.splits if_splits)

lemma rename_move_attrs:
  assumes "rename_move clk n old_parent np nm h = Some (r, h')"
  shows "attr_map h' = attr_map h"
proof -
  from assms obtain q opn where O: "old_parent = Some q" "h q = Some opn"
    by (auto simp: rename_move_def split: option.splits)
  define h2 where "h2 = upd_node (h(q \<mapsto> opn\<lparr>children :=
                            (case ptr_index (children opn) n 0 of
                               None \<Rightarrow> children opn
                             | Some i \<Rightarrow> swap_remove (children opn) i)\<rparr>)) n (\<lambda>x. x\<lparr>parent := None\<rparr>)"
  have H2: "attr_map h2 = attr_map h"
    using O by (simp add: h2_def attr_map_upd_node attr_map_upd)
  from assms O obtain ro h3 where A: "dir_add (clk 0) h2 (Some np) (Some n) = Some (ro, h3)"
    by (auto simp: rename_move_def Let_def h2_def split: option.splits)
  note H3 = dir_add_attrs [OF A]
  show ?thesis
  proof (cases ro)
    case None
    with assms O A obtain x where "dir_add (clk 0) h3 (Some q) (Some n) = Some (x, h')"
      by (auto simp: rename_move_def Let_def h2_def split: option.splits)
    from dir_add_attrs [OF this] H3 H2 show ?thesis by simp
  next
    case (Some c)
    with assms O A have "rename_finish (clk 2) n nm (upd_node h3 q (stamp (clk 1))) = Some h'"
      by (auto simp: rename_move_def Let_def h2_def split: option.splits)
    from rename_finish_attrs [OF this] H3 H2 show ?thesis
      by (simp add: attr_map_upd_node stamp_def)
  qed
qed

lemma rename_file_attrs:
  assumes "rename_file clk old_path new_path s = Some (r, s')"
  shows "attrs_kept s s'"
proof (rule attrs_kept_same)
  show "attr_map (heap s') = attr_map (heap s)"
    using assms
    by (auto simp: rename_file_def Let_def split: option.splits if_splits bool.splits
        dest!: rename_move_attrs rename_finish_attrs)
qed

lemma fs_open_attrs: "fs_open now path fl s = Some (r, s') \<Longrightarrow> attrs_kept s s'"
  by (rule attrs_kept_same)
    (auto simp: fs_open_def attr_map_upd split: option.splits if_splits)

lemma fs_close_attrs: "fs_close fd s = Some (r, s') \<Longrightarrow> attrs_kept s s'"
  by (rule attrs_kept_same) (auto simp: fs_close_def split: if_splits)

lemma fs_read_fd_attrs: "fs_read_fd now fd buf len s = Some (r, s') \<Longrightarrow> attrs_kept s s'"
  by (rule attrs_kept_same)
    (auto simp: fs_read_fd_def Let_def attr_map_upd split: option.splits if_splits)

lemma fs_write_fd_attrs:
  assumes "fs_write_fd ok now fd buf s = Some (r, s')"
  shows "attrs_kept s s'"
proof (rule attrs_kept_same)
  show "attr_map (heap s') = attr_map (heap s)"
    using assms
    by (auto simp: fs_write_fd_def Let_def attr_map_upd stamp_def
        split: option.splits if_splits dest!: ensure_cap_attrs)
qed

lemma fs_seek_attrs: "fs_seek fd ofs whence s = Some (r, s') \<Longrightarrow> attrs_kept s s'"
  by (rule attrs_kept_same)
    (auto simp: fs_seek_def Let_def split: option.splits if_splits)

lemma mkdir_p_example:
  "mkdir_p (ticks 50) (\<lambda>k. Some (10 + k)) (Some ''/new/../f/x'') fs_example = Some (- 1, fs_after_mkdir)"
  by (simp add: ex_defs fs_after_mkdir_def mkdir_p_def node_new_def dir_add_def upd_node_def
      child_count_def MAX_CHILDREN_def ATTR_NONE_def fun_upd_twist ticks_def)

section \<open>Claims about the metadata operations\<close>

text \<open>
  C10. Whenever the path resolves to a live node, \<open>set_file_attributes\<close> and \<open>touch_file\<close>
  return \<open>0\<close>, whatever attributes the node carries, the read-only attribute included:
  \<open>set_file_attributes\<close> replaces the bitset by the given one and stamps the modified
  time, \<open>touch_file\<close> stamps the accessed and modified times. Every other operation
  leaves the attribute bitset of every node that is live before and after the call as
  it was, so \<open>set_file_attributes\<close> is the one operation that can clear a read-only flag.
\<close>

theorem metadata_ops_ignore_readonly:
  "(walk s path False None = Some (Some n, l) \<and> heap s n = Some nn \<longrightarrow>
      set_file_attributes now path bits s
        = Some (0, s\<lparr>heap := (heap s)(n \<mapsto> nn\<lparr>attributes := bits, modified := now\<rparr>)\<rparr>)
      \<and> touch_file now path s
        = Some (0, s\<lparr>heap := (heap s)(n \<mapsto> nn\<lparr>accessed := now, modified := now\<rparr>)\<rparr>))
   \<and> (fs_init now m s = Some (u, s') \<longrightarrow> attrs_kept s s')
   \<and> (fs_destroy s = Some (u, s') \<longrightarrow> attrs_kept s s')
   \<and> (fs_cd now path s = Some (r, s') \<longrightarrow> attrs_kept s s')
   \<and> (mkdir_p clk al path s = Some (r, s') \<longrightarrow> attrs_kept s s')
   \<and> (create_file clk m path s = Some (r, s') \<longrightarrow> attrs_kept s s')
   \<and> (write_file realloc_ok now path off b s = Some (r, s') \<longrightarrow> attrs_kept s s')
   \<and> (read_file now path off len s = Some (rb, s') \<longrightarrow> attrs_kept s s')
   \<and> (rm_file now path s = Some (r, s') \<longrightarrow> attrs_kept s s')
   \<and> (rmdir_empty now path s = Some (r, s') \<longrightarrow> attrs_kept s s')
   \<and> (ls_dir now path s = Some (rl, s') \<longrightarrow> attrs_kept s s')
   \<and> (get_file_info now path info s = Some (ri, s') \<longrightarrow> attrs_kept s s')
   \<and> (touch_file now path s = Some (r, s') \<longrightarrow> attrs_kept s s')
   \<and> (fs_search clk term s = Some (r, s') \<longrightarrow> attrs_kept s s')
   \<and> (rename_file clk path new_path s = Some (r, s') \<longrightarrow> attrs_kept s s')
   \<and> (fs_open now path fl s = Some (r, s') \<longrightarrow> attrs_kept s s')
   \<and> (fs_close fd s = Some (r, s') \<longrightarrow> attrs_kept s s')
   \<and> (fs_read_fd now fd buf len s = Some (rb, s') \<longrightarrow> attrs_kept s s')
   \<and> (fs_write_fd realloc_ok now fd wbuf s = Some (r, s') \<longrightarrow> attrs_kept s s')
   \<and> (fs_seek fd ofs whence s = Some (r, s') \<longrightarrow> attrs_kept s s')"
proof -
  have meta: "walk s path False None = Some (Some n, l) \<and> heap s n = Some nn \<longrightarrow>
      set_file_attributes now path bits s
        = Some (0, s\<lparr>heap := (heap s)(n \<mapsto> nn\<lparr>attributes := bits, modified := now\<rparr>)\<rparr>)
      \<and> touch_file now path s
        = Some (0, s\<lparr>heap := (heap s)(n \<mapsto> nn\<lparr>accessed := now, modified := now\<rparr>)\<rparr>)"
    by (simp add: set_file_attributes_def touch_file_def)
  show ?thesis
    by (intro conjI impI meta)
      (erule fs_init_attrs fs_destroy_attrs fs_cd_attrs mkdir_p_attrs create_file_attrs
        write_file_attrs read_file_attrs rm_file_attrs rmdir_empty_attrs ls_dir_attrs
        get_file_info_attrs touch_file_attrs fs_search_attrs rename_file_attrs fs_open_attrs
        fs_close_attrs fs_read_fd_attrs fs_write_fd_attrs fs_seek_attrs)+
qed

theorem metadata_ops_ignore_readonly_witness:
  "walk fs_example (Some ''/docs/ro'') False None = Some (Some 3, None)
   \<and> is_readonly (mk_node N_FILE ''ro'' (Some 1) ATTR_READONLY [] [] 0)
   \<and> set_file_attributes 60 (Some ''/docs/ro'') 0 fs_example
       = Some (0, fs_example\<lparr>heap := (heap fs_example)
            (3 \<mapsto> (mk_node N_FILE ''ro'' (Some 1) ATTR_READONLY [] [] 0)
                    \<lparr>attributes := 0, modified := 60\<rparr>)\<rparr>)
   \<and> \<not> is_readonly ((mk_node N_FILE ''ro'' (Some 1) ATTR_READONLY [] [] 0)
                       \<lparr>attributes := 0, modified := 60\<rparr>)
   \<and> touch_file 60 (Some ''/docs/ro'') fs_example
       = Some (0, fs_example\<lparr>heap := (heap fs_example)
            (3 \<mapsto> (mk_node N_FILE ''ro'' (Some 1) ATTR_READONLY [] [] 0)
                    \<lparr>accessed := 60, modified := 60\<rparr>)\<rparr>)
   \<and> attrs_kept fs_example (fs_example\<lparr>heap := (heap fs_example)
            (3 \<mapsto> (mk_node N_FILE ''ro'' (Some 1) ATTR_READONLY [] [] 0)
                    \<lparr>accessed := 60, modified := 60\<rparr>)\<rparr>)
   \<and> attrs_kept fs_example fs_written
   \<and> attrs_kept fs_example fs_wronly
   \<and> attrs_kept fs_example fs_after_mkdir
   \<and> attrs_kept fs_example
        \<lparr>heap = Map.empty, root = None, cwd = None, fd_table = (\<lambda>i. no_fd)\<rparr>
   \<and> attrs_kept fs_example fs_example"
proof -
  have w: "walk fs_example (Some ''/docs/ro'') False None = Some (Some 3, None)"
    by (simp add: ex_defs)
  have h: "heap fs_example 3 = Some (mk_node N_FILE ''ro'' (Some 1) ATTR_READONLY [] [] 0)"
    by (simp add: fs_example_def)
  have ro: "is_readonly (mk_node N_FILE ''ro'' (Some 1) ATTR_READONLY [] [] 0)"
    "\<not> is_readonly ((mk_node N_FILE ''ro'' (Some 1) ATTR_READONLY [] [] 0)
                       \<lparr>attributes := 0, modified := 60\<rparr>)"
    by (simp_all add: is_readonly_def mk_node_def ATTR_READONLY_def)
  have d: "fs_destroy fs_example
             = Some ((), \<lparr>heap = Map.empty, root = None, cwd = None, fd_table = (\<lambda>i. no_fd)\<rparr>)"
    by (simp add: fs_destroy_def node_free_def free_tasks.simps fs_example_def mk_node_def)
  have e: "rm_file 50 (Some ''/docs/ro'') fs_example = Some (- 1, fs_example)"
    by (simp add: fail_defs rm_file_def)
  note M = metadata_ops_ignore_readonly
  show ?thesis
    using w h ro
      M [where s = fs_example and path = "Some ''/docs/ro''" and n = 3 and l = None and now = 60
        and nn = "mk_node N_FILE ''ro'' (Some 1) ATTR_READONLY [] [] 0" and bits = 0 and r = 0
        and s' = "fs_example\<lparr>heap := (heap fs_example)
            (3 \<mapsto> (mk_node N_FILE ''ro'' (Some 1) ATTR_READONLY [] [] 0)
                    \<lparr>accessed := 60, modified := 60\<rparr>)\<rparr>"]
      M [where s = fs_example and s' = fs_written and realloc_ok = "\<lambda>n. True" and now = 90
        and path = "Some ''/f''" and off = 3 and b = "[88, 89, 90]" and r = 3]
      write_file_example
      M [where s = fs_example and s' = fs_wronly and now = 70 and path = "Some ''/f''"
        and fl = O_WRONLY and r = 0]
      fs_open_write_only
      M [where s = fs_example and s' = fs_after_mkdir and clk = "ticks 50"
        and al = "\<lambda>k. Some (10 + k)" and path = "Some ''/new/../f/x''" and r = "- 1"]
      mkdir_p_example
      M [where s = fs_example and u = "()"
        and s' = "\<lparr>heap = Map.empty, root = None, cwd = None, fd_table = (\<lambda>i. no_fd)\<rparr>"]
      d
      M [where s = fs_example and s' = fs_example and now = 50 and path = "Some ''/docs/ro''"
        and r = "- 1"]
      e
    by simp
qed

end
